theory Spec2Isabelle
  imports Complex_Main "HOL-Library.Multiset"
begin

section \<open>Data model\<close>

text \<open>
  The two campaign scripts (\<^verbatim>\<open>quantum_campaign_control.py\<close>, the triple-ancilla variant on
  9 wires, and \<^verbatim>\<open>quantum_campaign_b3.py\<close>, the dual-ancilla variant on 8 wires) share the
  topology table, the shape of the circuit builder, of the analyzer and of the two-phase
  orchestrator. Python integers are \<open>int\<close>, Python strings are \<open>string\<close>, a dictionary
  that is iterated is an association list in insertion order, and every exception the code can
  raise is a value of \<open>py_error\<close>. True division produces a Python float; it is modelled by
  exact division on \<open>real\<close>, and \<^verbatim>\<open>np.log2\<close> by the real logarithm to base 2, so rounding
  is left out. A character is one of the 256 code points below U+0100. The circuit library,
  the remote service and the ledger file are collaborators: a circuit is the list of
  instructions the library accepted (it resolves and checks every qubit index), the
  service's answers are inputs, and the file is the list of rows written to it.
\<close>

datatype py_error = IndexError | ValueError | CircuitError | RuntimeError string

record config =
  ghz_indices :: "int list"
  local_a_indices :: "int list"
  local_b_indices :: "int list"

definition TOPOLOGIES :: "(string \<times> config) list" where
  "TOPOLOGIES =
    [(''A'', \<lparr>ghz_indices = [0, 1, 2, 3, 4, 5], local_a_indices = [0, 1, 2],
             local_b_indices = [3, 4, 5]\<rparr>),
     (''B'', \<lparr>ghz_indices = [1, 2, 3, 4, 5, 0], local_a_indices = [1, 2, 3],
             local_b_indices = [4, 5, 0]\<rparr>),
     (''C'', \<lparr>ghz_indices = [2, 3, 4, 5, 0, 1], local_a_indices = [2, 3, 4],
             local_b_indices = [5, 0, 1]\<rparr>),
     (''D'', \<lparr>ghz_indices = [0, 1, 2, 3, 4, 5], local_a_indices = [0, 2, 4],
             local_b_indices = [1, 3, 5]\<rparr>)]"

definition SHOTS :: int where
  "SHOTS = 8192"

definition REPETITIONS :: nat where
  "REPETITIONS = 5"

text \<open>\<^verbatim>\<open>range(1, REPETITIONS + 1)\<close>\<close>

definition repetition_range :: "nat list" where
  "repetition_range = [1..<REPETITIONS + 1]"

text \<open>A key of the counts dictionary: a bitstring, or an integer still to be formatted.\<close>

datatype state_key = StrKey string | IntKey int

type_synonym counts = "(state_key \<times> int) list"

section \<open>Python primitives used by the analyzers\<close>

text \<open>\<^verbatim>\<open>xs[i]\<close>: a negative index counts from the end, anything out of range raises.\<close>

definition py_getitem :: "'a list \<Rightarrow> int \<Rightarrow> py_error + 'a" where
  "py_getitem xs i =
     (if 0 \<le> i \<and> i < int (length xs) then Inr (xs ! nat i)
      else if i < 0 \<and> - int (length xs) \<le> i then Inr (xs ! nat (int (length xs) + i))
      else Inl IndexError)"

text \<open>\<^verbatim>\<open>[s[i] for i in nodes]\<close>: the first bad index raises.\<close>

fun gather :: "string \<Rightarrow> int list \<Rightarrow> py_error + string" where
  "gather s [] = Inr []"
| "gather s (i # rest) =
     (case py_getitem s i of
        Inl e \<Rightarrow> Inl e
      | Inr ch \<Rightarrow> (case gather s rest of Inl e \<Rightarrow> Inl e | Inr chs \<Rightarrow> Inr (ch # chs)))"

text \<open>\<^verbatim>\<open>int(ch)\<close> on a one-character string: a decimal digit, or ValueError.\<close>

definition py_int_char :: "char \<Rightarrow> py_error + int" where
  "py_int_char ch =
     (let k = (of_char ch :: nat)
      in if 48 \<le> k \<and> k \<le> 57 then Inr (int k - 48) else Inl ValueError)"

text \<open>\<^verbatim>\<open>format(n, '0wb')\<close>: binary digits, zero-padded to width \<open>w\<close>, sign first.\<close>

fun bin_digits :: "nat \<Rightarrow> string" where
  "bin_digits n =
     (if n < 2 then [if n = 0 then CHR ''0'' else CHR ''1'']
      else bin_digits (n div 2) @ [if n mod 2 = 0 then CHR ''0'' else CHR ''1''])"

declare bin_digits.simps [simp del]

definition zero_pad :: "nat \<Rightarrow> string \<Rightarrow> string" where
  "zero_pad w s = replicate (w - length s) CHR ''0'' @ s"

definition format_bin :: "nat \<Rightarrow> int \<Rightarrow> string" where
  "format_bin w n =
     (if n < 0 then CHR ''-'' # zero_pad (w - 1) (bin_digits (nat (- n)))
      else zero_pad w (bin_digits (nat n)))"

text \<open>The "handle bitstring format" branch, for integer width \<open>w\<close> (9 or 8).\<close>

definition bits_of :: "nat \<Rightarrow> state_key \<Rightarrow> string" where
  "bits_of w state =
     (case state of
        IntKey n \<Rightarrow> format_bin w n
      | StrKey s \<Rightarrow> filter (\<lambda>ch. ch \<noteq> CHR '' '') s)"

text \<open>
  One parity check, the block the analyzers repeat for every group: gather the group's
  characters of the reversed string, count the \<^verbatim>\<open>"1"\<close>s modulo 2, read the ancilla's
  character as an integer, compare.
\<close>

definition parity_check :: "string \<Rightarrow> int list \<Rightarrow> int \<Rightarrow> py_error + bool" where
  "parity_check bits_rev nodes anc =
     (case gather bits_rev nodes of
        Inl e \<Rightarrow> Inl e
      | Inr measured \<Rightarrow>
          (let computed = int (count_list measured CHR ''1'') mod 2 in
           case py_getitem bits_rev anc of
             Inl e \<Rightarrow> Inl e
           | Inr ch \<Rightarrow>
               (case py_int_char ch of
                  Inl e \<Rightarrow> Inl e
                | Inr measured_ancilla \<Rightarrow> Inr (measured_ancilla = computed))))"

section \<open>The triple-ancilla analyzer (\<^verbatim>\<open>quantum_campaign_control.analyze_results\<close>)\<close>

record tally =
  global_ok :: int
  localA_ok :: int
  localB_ok :: int
  probs :: "real list"

definition tally0 :: tally where
  "tally0 = \<lparr>global_ok = 0, localA_ok = 0, localB_ok = 0, probs = []\<rparr>"

text \<open>The body of \<^verbatim>\<open>for state, c in counts.items()\<close>.\<close>

definition analyze_step :: "config \<Rightarrow> int \<Rightarrow> state_key \<times> int \<Rightarrow> tally \<Rightarrow> py_error + tally" where
  "analyze_step cfg tot item t =
     (let state = fst item; c = snd item;
          p = real_of_int c / real_of_int tot;
          t1 = (if p > 0 then t\<lparr>probs := probs t @ [p]\<rparr> else t);
          bits = bits_of 9 state;
          bits_rev = rev bits
      in case parity_check bits_rev (ghz_indices cfg) 6 of
           Inl e \<Rightarrow> Inl e
         | Inr okG \<Rightarrow>
           (let t2 = (if okG then t1\<lparr>global_ok := global_ok t1 + c\<rparr> else t1)
            in case parity_check bits_rev (local_a_indices cfg) 7 of
                 Inl e \<Rightarrow> Inl e
               | Inr okA \<Rightarrow>
                 (let t3 = (if okA then t2\<lparr>localA_ok := localA_ok t2 + c\<rparr> else t2)
                  in case parity_check bits_rev (local_b_indices cfg) 8 of
                       Inl e \<Rightarrow> Inl e
                     | Inr okB \<Rightarrow>
                         Inr (if okB then t3\<lparr>localB_ok := localB_ok t3 + c\<rparr> else t3))))"

fun analyze_loop :: "config \<Rightarrow> int \<Rightarrow> counts \<Rightarrow> tally \<Rightarrow> py_error + tally" where
  "analyze_loop cfg tot [] t = Inr t"
| "analyze_loop cfg tot (item # rest) t =
     (case analyze_step cfg tot item t of
        Inl e \<Rightarrow> Inl e
      | Inr t' \<Rightarrow> analyze_loop cfg tot rest t')"

text \<open>\<^verbatim>\<open>-sum(pr * np.log2(pr) for pr in probs if pr > 0)\<close>\<close>

definition shannon :: "real list \<Rightarrow> real" where
  "shannon ps = - sum_list (map (\<lambda>pr. pr * log 2 pr) (filter (\<lambda>pr. pr > 0) ps))"

record metrics =
  G :: real
  LA :: real
  LB :: real
  AI :: real
  entropy :: real

definition total_of :: "counts \<Rightarrow> int" where
  "total_of cnts = sum_list (map snd cnts)"

definition analyze_results :: "counts \<Rightarrow> config \<Rightarrow> py_error + metrics" where
  "analyze_results cnts cfg =
     (let tot = total_of cnts in
      if tot = 0 then Inr \<lparr>G = 0, LA = 0, LB = 0, AI = 0, entropy = 0\<rparr>
      else case analyze_loop cfg tot cnts tally0 of
             Inl e \<Rightarrow> Inl e
           | Inr t \<Rightarrow>
               (let g = real_of_int (global_ok t) / real_of_int tot;
                    la = real_of_int (localA_ok t) / real_of_int tot;
                    lb = real_of_int (localB_ok t) / real_of_int tot;
                    ai = \<bar>la - lb\<bar>
                in Inr \<lparr>G = g, LA = la, LB = lb, AI = ai, entropy = shannon (probs t)\<rparr>))"

definition topology_A :: config where
  "topology_A = \<lparr>ghz_indices = [0, 1, 2, 3, 4, 5], local_a_indices = [0, 1, 2],
                 local_b_indices = [3, 4, 5]\<rparr>"

definition scenario2 :: counts where
  "scenario2 = [(StrKey ''000000000'', 4096), (StrKey ''111111000'', 4096)]"

section \<open>The dual-ancilla analyzer (\<^verbatim>\<open>quantum_campaign_b3.analyze_results\<close>)\<close>

text \<open>
  The loop state is the pair \<open>(global_ok, localA_ok)\<close>. The function returns a Python tuple,
  modelled as the list of its components: three zeros when the counts sum to zero, the two
  stabilities otherwise.
\<close>

definition analyze_step_b3 ::
    "int list \<Rightarrow> int \<Rightarrow> int \<Rightarrow> state_key \<times> int \<Rightarrow> int \<times> int \<Rightarrow> py_error + int \<times> int" where
  "analyze_step_b3 data_qubits anc_global anc_local item oks =
     (let state = fst item; c = snd item;
          bits = bits_of 8 state;
          bits_rev = rev bits
      in case parity_check bits_rev data_qubits anc_global of
           Inl e \<Rightarrow> Inl e
         | Inr okG \<Rightarrow>
           (let g = (if okG then fst oks + c else fst oks)
            in case parity_check bits_rev (take 3 data_qubits) anc_local of
                 Inl e \<Rightarrow> Inl e
               | Inr okA \<Rightarrow> Inr (g, if okA then snd oks + c else snd oks)))"

fun analyze_loop_b3 ::
    "int list \<Rightarrow> int \<Rightarrow> int \<Rightarrow> counts \<Rightarrow> int \<times> int \<Rightarrow> py_error + int \<times> int" where
  "analyze_loop_b3 data_qubits anc_global anc_local [] oks = Inr oks"
| "analyze_loop_b3 data_qubits anc_global anc_local (item # rest) oks =
     (case analyze_step_b3 data_qubits anc_global anc_local item oks of
        Inl e \<Rightarrow> Inl e
      | Inr oks' \<Rightarrow> analyze_loop_b3 data_qubits anc_global anc_local rest oks')"

definition analyze_results_b3 ::
    "counts \<Rightarrow> int list \<Rightarrow> int \<Rightarrow> int \<Rightarrow> py_error + real list" where
  "analyze_results_b3 cnts data_qubits anc_global anc_local =
     (let tot = total_of cnts in
      if tot = 0 then Inr [0, 0, 0]
      else case analyze_loop_b3 data_qubits anc_global anc_local cnts (0, 0) of
             Inl e \<Rightarrow> Inl e
           | Inr oks \<Rightarrow>
               Inr [real_of_int (fst oks) / real_of_int tot,
                    real_of_int (snd oks) / real_of_int tot])"

section \<open>The parity check read off the un-reversed string\<close>

text \<open>
  The specification's second indexing path: qubit \<open>i\<close> of a width-\<open>w\<close> outcome sits at
  position \<open>w - 1 - i\<close> of the string as reported. A position is one of \<open>0, \<dots>, w - 1\<close>;
  anything else is not a position of the string.
\<close>

definition raw_at :: "string \<Rightarrow> int \<Rightarrow> py_error + char" where
  "raw_at bits k =
     (if 0 \<le> k \<and> k < int (length bits) then Inr (bits ! nat k) else Inl IndexError)"

fun spec_gather_unreversed :: "nat \<Rightarrow> string \<Rightarrow> int list \<Rightarrow> py_error + string" where
  "spec_gather_unreversed w bits [] = Inr []"
| "spec_gather_unreversed w bits (i # rest) =
     (case raw_at bits (int w - 1 - i) of
        Inl e \<Rightarrow> Inl e
      | Inr ch \<Rightarrow>
          (case spec_gather_unreversed w bits rest of
             Inl e \<Rightarrow> Inl e
           | Inr chs \<Rightarrow> Inr (ch # chs)))"

definition spec_parity_unreversed :: "nat \<Rightarrow> string \<Rightarrow> int list \<Rightarrow> int \<Rightarrow> py_error + bool" where
  "spec_parity_unreversed w bits nodes anc =
     (case spec_gather_unreversed w bits nodes of
        Inl e \<Rightarrow> Inl e
      | Inr measured \<Rightarrow>
          (let computed = int (count_list measured CHR ''1'') mod 2 in
           case raw_at bits (int w - 1 - anc) of
             Inl e \<Rightarrow> Inl e
           | Inr ch \<Rightarrow>
               (case py_int_char ch of
                  Inl e \<Rightarrow> Inl e
                | Inr measured_ancilla \<Rightarrow> Inr (measured_ancilla = computed))))"

text \<open>
  The loop bodies of the two analyzers as that second path reads them: the string is not
  reversed, and every group is checked at positions \<open>w - 1 - i\<close> of the string as reported,
  \<open>w\<close> being its width.
\<close>

definition spec_analyze_step_unreversed ::
    "config \<Rightarrow> int \<Rightarrow> state_key \<times> int \<Rightarrow> tally \<Rightarrow> py_error + tally" where
  "spec_analyze_step_unreversed cfg tot item t =
     (let state = fst item; c = snd item;
          p = real_of_int c / real_of_int tot;
          t1 = (if p > 0 then t\<lparr>probs := probs t @ [p]\<rparr> else t);
          bits = bits_of 9 state;
          w = length bits
      in case spec_parity_unreversed w bits (ghz_indices cfg) 6 of
           Inl e \<Rightarrow> Inl e
         | Inr okG \<Rightarrow>
           (let t2 = (if okG then t1\<lparr>global_ok := global_ok t1 + c\<rparr> else t1)
            in case spec_parity_unreversed w bits (local_a_indices cfg) 7 of
                 Inl e \<Rightarrow> Inl e
               | Inr okA \<Rightarrow>
                 (let t3 = (if okA then t2\<lparr>localA_ok := localA_ok t2 + c\<rparr> else t2)
                  in case spec_parity_unreversed w bits (local_b_indices cfg) 8 of
                       Inl e \<Rightarrow> Inl e
                     | Inr okB \<Rightarrow>
                         Inr (if okB then t3\<lparr>localB_ok := localB_ok t3 + c\<rparr> else t3))))"

definition spec_analyze_step_b3_unreversed ::
    "int list \<Rightarrow> int \<Rightarrow> int \<Rightarrow> state_key \<times> int \<Rightarrow> int \<times> int \<Rightarrow> py_error + int \<times> int" where
  "spec_analyze_step_b3_unreversed data_qubits anc_global anc_local item oks =
     (let state = fst item; c = snd item;
          bits = bits_of 8 state;
          w = length bits
      in case spec_parity_unreversed w bits data_qubits anc_global of
           Inl e \<Rightarrow> Inl e
         | Inr okG \<Rightarrow>
           (let g = (if okG then fst oks + c else fst oks)
            in case spec_parity_unreversed w bits (take 3 data_qubits) anc_local of
                 Inl e \<Rightarrow> Inl e
               | Inr okA \<Rightarrow> Inr (g, if okA then snd oks + c else snd oks)))"

section \<open>Circuit builders\<close>

text \<open>
  A \<^verbatim>\<open>QuantumCircuit(n, n)\<close> is the register width together with the instructions appended
  so far, in order. \<open>qc.h(q)\<close>, \<open>qc.cx(q, a)\<close> and \<open>qc.measure(i, i)\<close> first resolve every
  integer index as the circuit library does: an index from \<open>-n\<close> to \<open>-1\<close> counts from the
  end of the register, an index outside \<open>-n, \<dots>, n - 1\<close> raises CircuitError, and a two-qubit
  gate whose two qubits resolve to the same wire raises CircuitError. Then they append one
  instruction on the resolved wires. \<open>qc.measure(range(9), range(9))\<close> appends one
  measurement per pair of the two ranges.
\<close>

datatype gate = H int | CX int int | Measure int int

record circuit =
  num_qubits :: nat
  num_clbits :: nat
  instructions :: "gate list"

definition QuantumCircuit :: "nat \<Rightarrow> nat \<Rightarrow> circuit" where
  "QuantumCircuit n m = \<lparr>num_qubits = n, num_clbits = m, instructions = []\<rparr>"

definition append_gate :: "circuit \<Rightarrow> gate \<Rightarrow> circuit" where
  "append_gate qc g = qc\<lparr>instructions := instructions qc @ [g]\<rparr>"

definition resolve_bit :: "nat \<Rightarrow> int \<Rightarrow> py_error + int" where
  "resolve_bit n i =
     (if 0 \<le> i \<and> i < int n then Inr i
      else if - int n \<le> i \<and> i < 0 then Inr (i + int n)
      else Inl CircuitError)"

definition qc_h :: "circuit \<Rightarrow> int \<Rightarrow> py_error + circuit" where
  "qc_h qc q =
     (case resolve_bit (num_qubits qc) q of
        Inl e \<Rightarrow> Inl e
      | Inr w \<Rightarrow> Inr (append_gate qc (H w)))"

definition qc_cx :: "circuit \<Rightarrow> int \<Rightarrow> int \<Rightarrow> py_error + circuit" where
  "qc_cx qc q a =
     (case resolve_bit (num_qubits qc) q of
        Inl e \<Rightarrow> Inl e
      | Inr w \<Rightarrow>
          (case resolve_bit (num_qubits qc) a of
             Inl e \<Rightarrow> Inl e
           | Inr v \<Rightarrow> if w = v then Inl CircuitError else Inr (append_gate qc (CX w v))))"

definition qc_measure :: "circuit \<Rightarrow> int \<Rightarrow> int \<Rightarrow> py_error + circuit" where
  "qc_measure qc q c =
     (case resolve_bit (num_qubits qc) q of
        Inl e \<Rightarrow> Inl e
      | Inr w \<Rightarrow>
          (case resolve_bit (num_clbits qc) c of
             Inl e \<Rightarrow> Inl e
           | Inr v \<Rightarrow> Inr (append_gate qc (Measure w v))))"

text \<open>\<^verbatim>\<open>for q in nodes: qc.h(q)\<close>\<close>

fun h_loop :: "circuit \<Rightarrow> int list \<Rightarrow> py_error + circuit" where
  "h_loop qc [] = Inr qc"
| "h_loop qc (q # rest) =
     (case qc_h qc q of Inl e \<Rightarrow> Inl e | Inr qc' \<Rightarrow> h_loop qc' rest)"

text \<open>\<^verbatim>\<open>for q in nodes: qc.cx(q, anc)\<close>\<close>

fun cx_loop :: "circuit \<Rightarrow> int list \<Rightarrow> int \<Rightarrow> py_error + circuit" where
  "cx_loop qc [] anc = Inr qc"
| "cx_loop qc (q # rest) anc =
     (case qc_cx qc q anc of Inl e \<Rightarrow> Inl e | Inr qc' \<Rightarrow> cx_loop qc' rest anc)"

text \<open>\<^verbatim>\<open>for i in range(n): qc.measure(i, i)\<close>\<close>

fun measure_loop :: "circuit \<Rightarrow> int list \<Rightarrow> py_error + circuit" where
  "measure_loop qc [] = Inr qc"
| "measure_loop qc (i # rest) =
     (case qc_measure qc i i of Inl e \<Rightarrow> Inl e | Inr qc' \<Rightarrow> measure_loop qc' rest)"

definition py_range :: "nat \<Rightarrow> int list" where
  "py_range n = map int [0..<n]"

definition build_circuit :: "config \<Rightarrow> py_error + circuit" where
  "build_circuit cfg =
     (let qc = QuantumCircuit 9 9;
          ghz_nodes = ghz_indices cfg;
          loc_a_nodes = local_a_indices cfg;
          loc_b_nodes = local_b_indices cfg
      in case h_loop qc ghz_nodes of
           Inl e \<Rightarrow> Inl e
         | Inr qc \<Rightarrow>
           (case cx_loop qc ghz_nodes 6 of
              Inl e \<Rightarrow> Inl e
            | Inr qc \<Rightarrow>
              (case cx_loop qc loc_a_nodes 7 of
                 Inl e \<Rightarrow> Inl e
               | Inr qc \<Rightarrow>
                 (case cx_loop qc loc_b_nodes 8 of
                    Inl e \<Rightarrow> Inl e
                  | Inr qc \<Rightarrow> measure_loop qc (py_range 9)))))"

record topology_map =
  data :: "int list"
  anc_global :: int
  anc_local :: int

definition classical_control_circuit :: "topology_map \<Rightarrow> py_error + circuit" where
  "classical_control_circuit tm =
     (let qc = QuantumCircuit 8 8;
          data_qubits = data tm
      in case h_loop qc data_qubits of
           Inl e \<Rightarrow> Inl e
         | Inr qc \<Rightarrow>
           (case cx_loop qc data_qubits (anc_global tm) of
              Inl e \<Rightarrow> Inl e
            | Inr qc \<Rightarrow>
              (case cx_loop qc (take 3 data_qubits) (anc_local tm) of
                 Inl e \<Rightarrow> Inl e
               | Inr qc \<Rightarrow> measure_loop qc (py_range 8))))"

definition get_ordered_data :: "config \<Rightarrow> int list" where
  "get_ordered_data cfg =
     (let ghz = ghz_indices cfg;
          loc_a = local_a_indices cfg;
          remaining = filter (\<lambda>x. x \<notin> set loc_a) ghz
      in loc_a @ remaining)"

definition ANC_GLOBAL :: int where
  "ANC_GLOBAL = 6"

definition ANC_LOCAL :: int where
  "ANC_LOCAL = 7"

definition topology_map_of :: "config \<Rightarrow> topology_map" where
  "topology_map_of cfg =
     \<lparr>data = get_ordered_data cfg, anc_global = ANC_GLOBAL, anc_local = ANC_LOCAL\<rparr>"

section \<open>The campaign orchestrator\<close>

text \<open>
  The remote service is not part of the program: its answers are inputs. A job handle carries
  what \<open>job.job_id()\<close> and \<open>job.result()\<close> will answer (a value or a raised exception), a
  result handle what the count extraction block will produce. The optimizer
  (\<open>transpile\<close>) and the sampler (\<open>sampler.run\<close>) may answer differently from call to call,
  so their answers are indexed by the label and repetition of the call as well as by the
  circuit handed over. Printed lines are kept as a log of events, the ledger file as the
  list of its rows, a row as the list of its cells. \<open>Fixed2 x\<close> stands for the text
  \<^verbatim>\<open>f"{x:.2f}"\<close>. \<open>time.sleep\<close> has no effect on the state and is left out.
\<close>

datatype result_handle = ResultHandle (get_counts: "py_error + counts")

datatype job_handle =
  JobHandle (job_id_call: "py_error + string") (result_call: "py_error + result_handle")

record backend_env =
  backend_name :: string
  transpile :: "string \<Rightarrow> nat \<Rightarrow> circuit \<Rightarrow> py_error + circuit"
  sampler_run :: "string \<Rightarrow> nat \<Rightarrow> circuit \<Rightarrow> py_error + job_handle"

record job_entry =
  job :: job_handle
  job_id :: string
  run_label :: string
  config :: config
  rep :: nat

record job_entry_b3 = job_entry +
  topology_map :: topology_map

datatype event =
    Preparing string nat
  | Submitted string
  | SubmissionFailed py_error
  | Waiting string string
  | ExtractError string py_error
  | Done string
  | Failed string py_error

datatype cell = Text string | Fixed2 real | Num int

type_synonym row = "cell list"

record 'e sub_state =
  submitted_jobs :: "'e list"
  sub_log :: "event list"

text \<open>
  One pass of the inner submission loop. The circuit is built and optimized before the
  \<^verbatim>\<open>try\<close>: an exception of the builder or of \<open>transpile\<close> leaves \<open>main\<close> (\<open>Inl\<close>, with the
  state reached). Inside the \<^verbatim>\<open>try\<close>, an exception of \<open>sampler.run\<close> or of \<open>job.job_id()\<close> is
  printed and the loop goes on; the record is appended only after both returned.
\<close>

definition submit_one ::
    "backend_env \<Rightarrow> py_error + circuit \<Rightarrow> (job_handle \<Rightarrow> string \<Rightarrow> 'e) \<Rightarrow> string \<Rightarrow> nat \<Rightarrow>
     'e sub_state \<Rightarrow> (py_error \<times> 'e sub_state) + 'e sub_state" where
  "submit_one env built mk_entry label i s =
     (let s1 = s\<lparr>sub_log := sub_log s @ [Preparing label i]\<rparr>
      in case built of
           Inl e \<Rightarrow> Inl (e, s1)
         | Inr qc \<Rightarrow>
           (case transpile env label i qc of
              Inl e \<Rightarrow> Inl (e, s1)
            | Inr t_qc \<Rightarrow>
              (case sampler_run env label i t_qc of
                 Inl e \<Rightarrow> Inr (s1\<lparr>sub_log := sub_log s1 @ [SubmissionFailed e]\<rparr>)
               | Inr jb \<Rightarrow>
                 (case job_id_call jb of
                    Inl e \<Rightarrow> Inr (s1\<lparr>sub_log := sub_log s1 @ [SubmissionFailed e]\<rparr>)
                  | Inr jid \<Rightarrow>
                      Inr (s1\<lparr>sub_log := sub_log s1 @ [Submitted jid],
                              submitted_jobs := submitted_jobs s1 @ [mk_entry jb jid]\<rparr>)))))"

text \<open>\<^verbatim>\<open>for i in range(1, REPETITIONS + 1)\<close> in the triple-ancilla script.\<close>

fun submit_reps ::
    "backend_env \<Rightarrow> string \<Rightarrow> config \<Rightarrow> nat list \<Rightarrow> job_entry sub_state \<Rightarrow>
     (py_error \<times> job_entry sub_state) + job_entry sub_state" where
  "submit_reps env label cfg [] s = Inr s"
| "submit_reps env label cfg (i # rest) s =
     (case submit_one env (build_circuit cfg)
             (\<lambda>jb jid. \<lparr>job = jb, job_id = jid, run_label = label, config = cfg, rep = i\<rparr>)
             label i s of
        Inl x \<Rightarrow> Inl x
      | Inr s' \<Rightarrow> submit_reps env label cfg rest s')"

text \<open>\<^verbatim>\<open>for run_label, config in TOPOLOGIES.items()\<close>\<close>

fun submit_topologies ::
    "backend_env \<Rightarrow> (string \<times> config) list \<Rightarrow> job_entry sub_state \<Rightarrow>
     (py_error \<times> job_entry sub_state) + job_entry sub_state" where
  "submit_topologies env [] s = Inr s"
| "submit_topologies env (lc # rest) s =
     (case submit_reps env (fst lc) (snd lc) repetition_range s of
        Inl x \<Rightarrow> Inl x
      | Inr s' \<Rightarrow> submit_topologies env rest s')"

definition submission_phase ::
    "backend_env \<Rightarrow> (py_error \<times> job_entry sub_state) + job_entry sub_state" where
  "submission_phase env = submit_topologies env TOPOLOGIES \<lparr>submitted_jobs = [], sub_log = []\<rparr>"

text \<open>The same two loops in the dual-ancilla script; the record also keeps the topology map.\<close>

fun submit_reps_b3 ::
    "backend_env \<Rightarrow> string \<Rightarrow> config \<Rightarrow> topology_map \<Rightarrow> nat list \<Rightarrow> job_entry_b3 sub_state \<Rightarrow>
     (py_error \<times> job_entry_b3 sub_state) + job_entry_b3 sub_state" where
  "submit_reps_b3 env label cfg tm [] s = Inr s"
| "submit_reps_b3 env label cfg tm (i # rest) s =
     (case submit_one env (classical_control_circuit tm)
             (\<lambda>jb jid. \<lparr>job = jb, job_id = jid, run_label = label, config = cfg, rep = i,
                         topology_map = tm\<rparr>)
             label i s of
        Inl x \<Rightarrow> Inl x
      | Inr s' \<Rightarrow> submit_reps_b3 env label cfg tm rest s')"

fun submit_topologies_b3 ::
    "backend_env \<Rightarrow> (string \<times> config) list \<Rightarrow> job_entry_b3 sub_state \<Rightarrow>
     (py_error \<times> job_entry_b3 sub_state) + job_entry_b3 sub_state" where
  "submit_topologies_b3 env [] s = Inr s"
| "submit_topologies_b3 env (lc # rest) s =
     (case submit_reps_b3 env (fst lc) (snd lc) (topology_map_of (snd lc))
             repetition_range s of
        Inl x \<Rightarrow> Inl x
      | Inr s' \<Rightarrow> submit_topologies_b3 env rest s')"

definition submission_phase_b3 ::
    "backend_env \<Rightarrow> (py_error \<times> job_entry_b3 sub_state) + job_entry_b3 sub_state" where
  "submission_phase_b3 env =
     submit_topologies_b3 env TOPOLOGIES \<lparr>submitted_jobs = [], sub_log = []\<rparr>"

subsection \<open>Collection\<close>

record col_state =
  ledger :: "row list"
  col_log :: "event list"

definition ledger_row :: "string \<Rightarrow> string \<Rightarrow> string \<Rightarrow> metrics \<Rightarrow> row" where
  "ledger_row bname label jid m =
     [Text bname, Text label, Text jid,
      Fixed2 (G m * 100), Fixed2 (LA m * 100), Fixed2 (LB m * 100), Fixed2 (AI m * 100),
      Num SHOTS]"

definition ledger_row_b3 :: "string \<Rightarrow> string \<Rightarrow> string \<Rightarrow> real \<Rightarrow> real \<Rightarrow> row" where
  "ledger_row_b3 bname label jid g la =
     [Text bname, Text label, Text jid,
      Fixed2 (g * 100), Fixed2 (la * 100), Text ''0.00'', Text ''0.00'',
      Num SHOTS]"

text \<open>
  The body of the collection loop of the triple-ancilla script. The inner \<^verbatim>\<open>try\<close> guards
  the count extraction (\<^verbatim>\<open>continue\<close> on failure); the outer one guards the blocking wait,
  the analysis and the write.
\<close>

definition collect_one :: "string \<Rightarrow> job_entry \<Rightarrow> col_state \<Rightarrow> col_state" where
  "collect_one bname entry s =
     (let jid = job_id entry; label = run_label entry;
          s1 = s\<lparr>col_log := col_log s @ [Waiting jid label]\<rparr>
      in case result_call (job entry) of
           Inl e \<Rightarrow> s1\<lparr>col_log := col_log s1 @ [Failed jid e]\<rparr>
         | Inr result \<Rightarrow>
           (case get_counts result of
              Inl e \<Rightarrow> s1\<lparr>col_log := col_log s1 @ [ExtractError jid e]\<rparr>
            | Inr cnts \<Rightarrow>
              (case analyze_results cnts (config entry) of
                 Inl e \<Rightarrow> s1\<lparr>col_log := col_log s1 @ [Failed jid e]\<rparr>
               | Inr m \<Rightarrow>
                   s1\<lparr>ledger := ledger s1 @ [ledger_row bname label jid m],
                      col_log := col_log s1 @ [Done jid]\<rparr>)))"

fun collection_phase :: "string \<Rightarrow> job_entry list \<Rightarrow> col_state \<Rightarrow> col_state" where
  "collection_phase bname [] s = s"
| "collection_phase bname (entry # rest) s = collection_phase bname rest (collect_one bname entry s)"

text \<open>
  The dual-ancilla script unpacks the analyzer's tuple into two names: a tuple of any other
  length raises ValueError at the assignment, inside the outer \<^verbatim>\<open>try\<close>.
\<close>

definition collect_one_b3 :: "string \<Rightarrow> job_entry_b3 \<Rightarrow> col_state \<Rightarrow> col_state" where
  "collect_one_b3 bname entry s =
     (let jid = job_id entry; label = run_label entry; topo_map = topology_map entry;
          s1 = s\<lparr>col_log := col_log s @ [Waiting jid label]\<rparr>
      in case result_call (job entry) of
           Inl e \<Rightarrow> s1\<lparr>col_log := col_log s1 @ [Failed jid e]\<rparr>
         | Inr result \<Rightarrow>
           (case get_counts result of
              Inl e \<Rightarrow> s1\<lparr>col_log := col_log s1 @ [ExtractError jid e]\<rparr>
            | Inr cnts \<Rightarrow>
              (case analyze_results_b3 cnts (data topo_map) (anc_global topo_map)
                      (anc_local topo_map) of
                 Inl e \<Rightarrow> s1\<lparr>col_log := col_log s1 @ [Failed jid e]\<rparr>
               | Inr tup \<Rightarrow>
                 (case tup of
                    [g, la] \<Rightarrow>
                      s1\<lparr>ledger := ledger s1 @ [ledger_row_b3 bname label jid g la],
                         col_log := col_log s1 @ [Done jid]\<rparr>
                  | _ \<Rightarrow> s1\<lparr>col_log := col_log s1 @ [Failed jid ValueError]\<rparr>))))"

fun collection_phase_b3 :: "string \<Rightarrow> job_entry_b3 list \<Rightarrow> col_state \<Rightarrow> col_state" where
  "collection_phase_b3 bname [] s = s"
| "collection_phase_b3 bname (entry # rest) s =
     collection_phase_b3 bname rest (collect_one_b3 bname entry s)"

subsection \<open>Reading a ledger row and a circuit\<close>

text \<open>The header both scripts write when the ledger file does not exist yet.\<close>

definition ledger_header :: "string list" where
  "ledger_header = [''backend'', ''run_label'', ''job_id'', ''global_stability (%)'',
     ''local_A (%)'', ''local_B (%)'', ''asymmetry (%)'', ''shots'']"

text \<open>The cell of a row under a given header name.\<close>

definition column :: "string \<Rightarrow> row \<Rightarrow> cell option" where
  "column name r = map_of (zip ledger_header r) name"

text \<open>The controls of the controlled-NOTs that target a given ancilla, in program order.\<close>

fun controls_to :: "int \<Rightarrow> gate list \<Rightarrow> int list" where
  "controls_to anc [] = []"
| "controls_to anc (CX q a # rest) =
     (if a = anc then q # controls_to anc rest else controls_to anc rest)"
| "controls_to anc (g # rest) = controls_to anc rest"

definition cx_controls :: "circuit \<Rightarrow> int \<Rightarrow> int list" where
  "cx_controls qc anc = controls_to anc (instructions qc)"

text \<open>The same, read off what a builder returned.\<close>

definition built_cx_controls :: "py_error + circuit \<Rightarrow> int \<Rightarrow> py_error + int list" where
  "built_cx_controls built anc =
     (case built of Inl e \<Rightarrow> Inl e | Inr qc \<Rightarrow> Inr (cx_controls qc anc))"

text \<open>An instruction couples two data qubits when it is a two-qubit gate between them.\<close>

definition couples_data :: "int set \<Rightarrow> gate \<Rightarrow> bool" where
  "couples_data D g = (case g of CX q a \<Rightarrow> q \<in> D \<and> a \<in> D | _ \<Rightarrow> False)"

subsection \<open>The two phases in sequence\<close>

text \<open>
  \<open>main\<close> after a backend was found: the ledger file gets its header when it does not exist,
  all jobs are submitted, then all submitted jobs are collected. An exception that leaves the
  submission phase leaves \<open>main\<close>.
\<close>

definition initial_ledger :: "row list option \<Rightarrow> row list" where
  "initial_ledger file = (case file of None \<Rightarrow> [map Text ledger_header] | Some rows \<Rightarrow> rows)"

definition main_control :: "backend_env \<Rightarrow> row list option \<Rightarrow> py_error + col_state" where
  "main_control env file =
     (case submission_phase env of
        Inl x \<Rightarrow> Inl (fst x)
      | Inr s \<Rightarrow>
          Inr (collection_phase (backend_name env) (submitted_jobs s)
                 \<lparr>ledger = initial_ledger file, col_log = []\<rparr>))"

definition main_b3 :: "backend_env \<Rightarrow> row list option \<Rightarrow> py_error + col_state" where
  "main_b3 env file =
     (case submission_phase_b3 env of
        Inl x \<Rightarrow> Inl (fst x)
      | Inr s \<Rightarrow>
          Inr (collection_phase_b3 (backend_name env) (submitted_jobs s)
                 \<lparr>ledger = initial_ledger file, col_log = []\<rparr>))"

subsection \<open>Reading the logs, and what each pair and each job should contribute\<close>

text \<open>The (label, repetition) pairs for which a submission was prepared, in order.\<close>

fun attempts :: "event list \<Rightarrow> (string \<times> nat) list" where
  "attempts [] = []"
| "attempts (Preparing label i # rest) = (label, i) # attempts rest"
| "attempts (ev # rest) = attempts rest"

text \<open>The (job id, label) pairs of the jobs the collection loop waited for, in order.\<close>

fun visits :: "event list \<Rightarrow> (string \<times> string) list" where
  "visits [] = []"
| "visits (Waiting jid label # rest) = (jid, label) # visits rest"
| "visits (ev # rest) = visits rest"

definition opt_to_list :: "'a option \<Rightarrow> 'a list" where
  "opt_to_list x = (case x of None \<Rightarrow> [] | Some y \<Rightarrow> [y])"

text \<open>Every (label, configuration, repetition) of the campaign, labels in table order.\<close>

definition campaign_pairs :: "(string \<times> config \<times> nat) list" where
  "campaign_pairs =
     concat (map (\<lambda>lc. map (\<lambda>i. (fst lc, snd lc, i)) repetition_range) TOPOLOGIES)"

text \<open>
  What building and optimizing a pair's circuit answers: the two statements before the
  \<^verbatim>\<open>try\<close>.
\<close>

definition optimized ::
    "backend_env \<Rightarrow> string \<Rightarrow> nat \<Rightarrow> py_error + circuit \<Rightarrow> py_error + circuit" where
  "optimized env label i built =
     (case built of Inl e \<Rightarrow> Inl e | Inr qc \<Rightarrow> transpile env label i qc)"

text \<open>
  The job handle and identifier a pair obtains: present only when the builder, the optimizer,
  the sampler and the identifier call all answer without raising.
\<close>

definition submission_result ::
    "backend_env \<Rightarrow> py_error + circuit \<Rightarrow> string \<Rightarrow> nat \<Rightarrow> (job_handle \<times> string) option" where
  "submission_result env built label i =
     (case optimized env label i built of
        Inl e \<Rightarrow> None
      | Inr t_qc \<Rightarrow>
          (case sampler_run env label i t_qc of
             Inl e \<Rightarrow> None
           | Inr jb \<Rightarrow> (case job_id_call jb of Inl e \<Rightarrow> None | Inr jid \<Rightarrow> Some (jb, jid))))"

definition submitted_entry :: "backend_env \<Rightarrow> string \<times> config \<times> nat \<Rightarrow> job_entry option" where
  "submitted_entry env p =
     (case p of (label, cfg, i) \<Rightarrow>
        map_option
          (\<lambda>r. \<lparr>job = fst r, job_id = snd r, run_label = label, config = cfg, rep = i\<rparr>)
          (submission_result env (build_circuit cfg) label i))"

definition submitted_entry_b3 ::
    "backend_env \<Rightarrow> string \<times> config \<times> nat \<Rightarrow> job_entry_b3 option" where
  "submitted_entry_b3 env p =
     (case p of (label, cfg, i) \<Rightarrow>
        map_option
          (\<lambda>r. \<lparr>job = fst r, job_id = snd r, run_label = label, config = cfg, rep = i,
                 topology_map = topology_map_of cfg\<rparr>)
          (submission_result env (classical_control_circuit (topology_map_of cfg)) label i))"

text \<open>
  The ledger row a job of the triple-ancilla script obtains: present only when the blocking
  wait, the count extraction and the analysis all pass without raising.
\<close>

definition entry_row :: "string \<Rightarrow> job_entry \<Rightarrow> row option" where
  "entry_row bname entry =
     (case result_call (job entry) of
        Inl e \<Rightarrow> None
      | Inr result \<Rightarrow>
          (case get_counts result of
             Inl e \<Rightarrow> None
           | Inr cnts \<Rightarrow>
               (case analyze_results cnts (config entry) of
                  Inl e \<Rightarrow> None
                | Inr m \<Rightarrow> Some (ledger_row bname (run_label entry) (job_id entry) m))))"

text \<open>
  The rows one pass of the dual-ancilla collection loop adds for a job, read off the loop
  body itself.
\<close>

definition rows_written_b3 :: "string \<Rightarrow> job_entry_b3 \<Rightarrow> row list" where
  "rows_written_b3 bname entry =
     ledger (collect_one_b3 bname entry \<lparr>ledger = [], col_log = []\<rparr>)"

text \<open>
  A job is successfully analyzed when the blocking wait returns a result, the count
  extraction returns a distribution and the analyzer returns on that distribution.
\<close>

definition successfully_analyzed :: "job_entry \<Rightarrow> bool" where
  "successfully_analyzed entry =
     (case result_call (job entry) of
        Inl e \<Rightarrow> False
      | Inr result \<Rightarrow>
          (case get_counts result of
             Inl e \<Rightarrow> False
           | Inr cnts \<Rightarrow> \<not> isl (analyze_results cnts (config entry))))"

definition successfully_analyzed_b3 :: "job_entry_b3 \<Rightarrow> bool" where
  "successfully_analyzed_b3 entry =
     (case result_call (job entry) of
        Inl e \<Rightarrow> False
      | Inr result \<Rightarrow>
          (case get_counts result of
             Inl e \<Rightarrow> False
           | Inr cnts \<Rightarrow>
               \<not> isl (analyze_results_b3 cnts (data (topology_map entry))
                        (anc_global (topology_map entry)) (anc_local (topology_map entry)))))"

subsection \<open>Well-formed outcomes\<close>

text \<open>
  An outcome key is well formed for width \<open>w\<close> when it normalises to \<open>w\<close> characters, each
  \<open>0\<close> or \<open>1\<close>; a group lies within the register when its indices are positions of it.
\<close>

definition well_formed_outcome :: "nat \<Rightarrow> state_key \<Rightarrow> bool" where
  "well_formed_outcome w state =
     (length (bits_of w state) = w \<and> set (bits_of w state) \<subseteq> {CHR ''0'', CHR ''1''})"

definition positions_within :: "nat \<Rightarrow> int list \<Rightarrow> bool" where
  "positions_within w nodes = list_all (\<lambda>i. 0 \<le> i \<and> i < int w) nodes"

subsection \<open>Example environments and jobs\<close>

text \<open>The optimizer raises for the first pair only.\<close>

definition env_optimizer_fails_once :: backend_env where
  "env_optimizer_fails_once =
     \<lparr>backend_name = ''ibm_torino'',
      transpile = (\<lambda>label i qc.
         if label = ''A'' \<and> i = 1 then Inl (RuntimeError ''TranspilerError'') else Inr qc),
      sampler_run = (\<lambda>label i qc.
         Inr (JobHandle (Inr label) (Inr (ResultHandle (Inr [])))))\<rparr>"

text \<open>The sampler raises for pair (A, 2), the identifier call for pair (B, 3).\<close>

definition env_submission_fails_twice :: backend_env where
  "env_submission_fails_twice =
     \<lparr>backend_name = ''ibm_torino'',
      transpile = (\<lambda>label i qc. Inr qc),
      sampler_run = (\<lambda>label i qc.
         if label = ''A'' \<and> i = 2 then Inl (RuntimeError ''rate limit'')
         else if label = ''B'' \<and> i = 3
           then Inr (JobHandle (Inl (RuntimeError ''no id'')) (Inl (RuntimeError ''no result'')))
           else Inr (JobHandle (Inr label) (Inr (ResultHandle (Inr [])))))\<rparr>"

definition entry_ok :: job_entry where
  "entry_ok =
     \<lparr>job = JobHandle (Inr ''job-1'') (Inr (ResultHandle (Inr scenario2))),
      job_id = ''job-1'', run_label = ''A'', config = topology_A, rep = 1\<rparr>"

definition entry_wait_fails :: job_entry where
  "entry_wait_fails =
     \<lparr>job = JobHandle (Inr ''job-2'') (Inl (RuntimeError ''job cancelled'')),
      job_id = ''job-2'', run_label = ''A'', config = topology_A, rep = 2\<rparr>"

definition entry_extract_fails :: job_entry where
  "entry_extract_fails =
     \<lparr>job = JobHandle (Inr ''job-3'') (Inr (ResultHandle (Inl IndexError))),
      job_id = ''job-3'', run_label = ''A'', config = topology_A, rep = 3\<rparr>"

definition entry_short_string :: job_entry where
  "entry_short_string =
     \<lparr>job = JobHandle (Inr ''job-4'') (Inr (ResultHandle (Inr [(StrKey ''0000'', 8192)]))),
      job_id = ''job-4'', run_label = ''A'', config = topology_A, rep = 4\<rparr>"

definition entry_ok_b3 :: job_entry_b3 where
  "entry_ok_b3 =
     \<lparr>job = JobHandle (Inr ''job-1'') (Inr (ResultHandle (Inr [(StrKey ''00000000'', 8192)]))),
      job_id = ''job-1'', run_label = ''A'', config = topology_A, rep = 1,
      topology_map = topology_map_of topology_A\<rparr>"

definition entry_empty_b3 :: job_entry_b3 where
  "entry_empty_b3 =
     \<lparr>job = JobHandle (Inr ''job-2'') (Inr (ResultHandle (Inr []))),
      job_id = ''job-2'', run_label = ''A'', config = topology_A, rep = 2,
      topology_map = topology_map_of topology_A\<rparr>"

definition entry_empty :: job_entry where
  "entry_empty =
     \<lparr>job = JobHandle (Inr ''job-5'') (Inr (ResultHandle (Inr []))),
      job_id = ''job-5'', run_label = ''A'', config = topology_A, rep = 5\<rparr>"

subsection \<open>Further configurations used as examples\<close>

definition topology_D :: config where
  "topology_D = \<lparr>ghz_indices = [0, 1, 2, 3, 4, 5], local_a_indices = [0, 2, 4],
                 local_b_indices = [1, 3, 5]\<rparr>"

text \<open>A configuration whose local-A group has two members only.\<close>

definition config_short :: config where
  "config_short = \<lparr>ghz_indices = [0, 1, 2, 3, 4, 5], local_a_indices = [0, 1],
                   local_b_indices = [3, 4, 5]\<rparr>"

text \<open>A configuration whose global group contains the index of the global ancilla.\<close>

definition config_anc_overlap :: config where
  "config_anc_overlap = \<lparr>ghz_indices = [0, 1, 2, 6], local_a_indices = [0, 1, 2],
                         local_b_indices = [6]\<rparr>"

section \<open>Properties of the analyzers\<close>

lemma topology_A_registered: "map_of TOPOLOGIES ''A'' = Some topology_A"
  by (simp add: TOPOLOGIES_def topology_A_def)

lemma scenario2_loop:
  "analyze_loop topology_A 8192 scenario2 tally0 =
     Inr \<lparr>global_ok = 8192, localA_ok = 4096, localB_ok = 8192, probs = [1 / 2, 1 / 2]\<rparr>"
  by (simp add: scenario2_def topology_A_def tally0_def analyze_step_def bits_of_def
      parity_check_def py_getitem_def py_int_char_def)

lemma log2_half: "log 2 (1 / 2) = - 1"
  by (simp add: log_divide)

lemma scenario2_entropy: "shannon [1 / 2, 1 / 2] = 1"
  by (simp add: shannon_def log2_half)

lemma scenario2_value:
  "analyze_results scenario2 topology_A =
     Inr \<lparr>G = 1, LA = 1 / 2, LB = 1, AI = 1 / 2, entropy = 1\<rparr>"
proof -
  have tot: "total_of scenario2 = 8192"
    by (simp add: total_of_def scenario2_def)
  show ?thesis
    by (simp add: analyze_results_def Let_def tot scenario2_loop scenario2_entropy)
qed

text \<open>
  C1 (as amended). For topology A the distribution \<open>{"000000000": 4096, "111111000": 4096}\<close>
  gives global stability 1 and local-B stability 1, but local-A stability 1/2 and asymmetry
  1/2; the entropy is 1 bit. The string \<open>"111111000"\<close> is read reversed: qubits 0, 1, 2 are 0
  and qubits 3 to 8 (among them the three ancillas) are 1, so the local-A ancilla (1) differs
  from the parity of qubits 0, 1, 2 (0).
\<close>

theorem scenario2_metrics:
  "analyze_results scenario2 topology_A =
     Inr \<lparr>G = 1, LA = 1 / 2, LB = 1, AI = 1 / 2, entropy = 1\<rparr>"
proof -
  have tot: "total_of scenario2 = 8192"
    by (simp add: total_of_def scenario2_def)
  show ?thesis
    by (simp add: analyze_results_def Let_def tot scenario2_loop scenario2_entropy)
qed

text \<open>
  C1 (as stated) fails: at that input the reported local-A stability is 1/2, not 1.
\<close>

theorem scenario2_local_A_not_one:
  "map_sum id LA (analyze_results scenario2 topology_A) = Inr (1 / 2)
   \<and> map_sum id LA (analyze_results scenario2 topology_A) \<noteq> Inr 1"
proof -
  have tot: "total_of scenario2 = 8192"
    by (simp add: total_of_def scenario2_def)
  have "analyze_results scenario2 topology_A =
     Inr \<lparr>G = 1, LA = 1 / 2, LB = 1, AI = 1 / 2, entropy = 1\<rparr>"
    by (simp add: analyze_results_def Let_def tot scenario2_loop scenario2_entropy)
  then show ?thesis by simp
qed

subsection \<open>The analyzers return on well-formed outcomes\<close>

lemma gather_total:
  "positions_within (length s) nodes \<Longrightarrow> \<exists>r. gather s nodes = Inr r"
  by (induction nodes) (auto simp: positions_within_def py_getitem_def)

lemma py_int_char_bit:
  "ch \<in> {CHR ''0'', CHR ''1''} \<Longrightarrow> \<exists>v. py_int_char ch = Inr v"
  by (auto simp: py_int_char_def)

lemma parity_check_total:
  assumes "positions_within (length s) nodes" and "0 \<le> anc" and "anc < int (length s)"
    and "set s \<subseteq> {CHR ''0'', CHR ''1''}"
  shows "\<exists>b. parity_check s nodes anc = Inr b"
proof -
  from gather_total[OF assms(1)] obtain r where r: "gather s nodes = Inr r" by blast
  have g: "py_getitem s anc = Inr (s ! nat anc)"
    using assms(2,3) by (simp add: py_getitem_def)
  have "s ! nat anc \<in> set s" using assms(2,3) by simp
  with assms(4) have "s ! nat anc \<in> {CHR ''0'', CHR ''1''}" by blast
  from py_int_char_bit[OF this] obtain v where v: "py_int_char (s ! nat anc) = Inr v" by blast
  show ?thesis by (simp add: parity_check_def r g v)
qed

lemma analyze_step_total:
  assumes "well_formed_outcome 9 (fst item)"
    and "positions_within 9 (ghz_indices cfg)" "positions_within 9 (local_a_indices cfg)"
      "positions_within 9 (local_b_indices cfg)"
  shows "\<exists>t'. analyze_step cfg tot item t = Inr t'"
proof -
  let ?s = "rev (bits_of 9 (fst item))"
  from assms(1) have len: "length ?s = 9" and bits: "set ?s \<subseteq> {CHR ''0'', CHR ''1''}"
    by (simp_all add: well_formed_outcome_def)
  obtain bg where bg: "parity_check ?s (ghz_indices cfg) 6 = Inr bg"
    using parity_check_total[of ?s "ghz_indices cfg" 6] assms(2) len bits by auto
  obtain ba where ba: "parity_check ?s (local_a_indices cfg) 7 = Inr ba"
    using parity_check_total[of ?s "local_a_indices cfg" 7] assms(3) len bits by auto
  obtain bb where bb: "parity_check ?s (local_b_indices cfg) 8 = Inr bb"
    using parity_check_total[of ?s "local_b_indices cfg" 8] assms(4) len bits by auto
  show ?thesis by (simp add: analyze_step_def Let_def bg ba bb)
qed

lemma analyze_loop_total:
  assumes "list_all (\<lambda>item. well_formed_outcome 9 (fst item)) cnts"
    and "positions_within 9 (ghz_indices cfg)" "positions_within 9 (local_a_indices cfg)"
      "positions_within 9 (local_b_indices cfg)"
  shows "\<exists>t'. analyze_loop cfg tot cnts t = Inr t'"
  using assms(1)
proof (induction cnts arbitrary: t)
  case Nil
  then show ?case by simp
next
  case (Cons item rest)
  then have "well_formed_outcome 9 (fst item)" by simp
  from analyze_step_total[OF this assms(2,3,4)] obtain t1
    where "analyze_step cfg tot item t = Inr t1" by blast
  with Cons show ?case by simp
qed

lemma analyze_results_total:
  assumes "list_all (\<lambda>item. well_formed_outcome 9 (fst item)) cnts"
    and "positions_within 9 (ghz_indices cfg)" "positions_within 9 (local_a_indices cfg)"
      "positions_within 9 (local_b_indices cfg)"
  shows "\<exists>m. analyze_results cnts cfg = Inr m"
proof -
  from analyze_loop_total[OF assms] obtain t
    where "analyze_loop cfg (total_of cnts) cnts tally0 = Inr t" by blast
  then show ?thesis by (simp add: analyze_results_def Let_def)
qed

lemma positions_within_take: "positions_within w nodes \<Longrightarrow> positions_within w (take n nodes)"
  by (auto simp: positions_within_def list_all_iff dest: in_set_takeD)

lemma analyze_step_b3_total:
  assumes "well_formed_outcome 8 (fst item)" and "positions_within 8 dq"
    and "0 \<le> ag" "ag < 8" "0 \<le> al" "al < 8"
  shows "\<exists>oks'. analyze_step_b3 dq ag al item oks = Inr oks'"
proof -
  let ?s = "rev (bits_of 8 (fst item))"
  from assms(1) have len: "length ?s = 8" and bits: "set ?s \<subseteq> {CHR ''0'', CHR ''1''}"
    by (simp_all add: well_formed_outcome_def)
  obtain bg where bg: "parity_check ?s dq ag = Inr bg"
    using parity_check_total[of ?s dq ag] assms(2,3,4) len bits by auto
  obtain ba where ba: "parity_check ?s (take 3 dq) al = Inr ba"
    using parity_check_total[of ?s "take 3 dq" al] positions_within_take[OF assms(2)]
      assms(5,6) len bits by auto
  show ?thesis by (simp add: analyze_step_b3_def Let_def bg ba)
qed

lemma analyze_results_b3_total:
  assumes "list_all (\<lambda>item. well_formed_outcome 8 (fst item)) cnts" and "positions_within 8 dq"
    and "0 \<le> ag" "ag < 8" "0 \<le> al" "al < 8"
  shows "\<exists>tup. analyze_results_b3 cnts dq ag al = Inr tup"
proof -
  have "\<exists>oks'. analyze_loop_b3 dq ag al cnts oks = Inr oks'" for oks
    using assms(1)
  proof (induction cnts arbitrary: oks)
    case Nil
    then show ?case by simp
  next
    case (Cons item rest)
    then have "well_formed_outcome 8 (fst item)" by simp
    from analyze_step_b3_total[OF this assms(2,3,4,5,6)] obtain o1
      where "analyze_step_b3 dq ag al item oks = Inr o1" by blast
    with Cons show ?case by simp
  qed
  then obtain oks where "analyze_loop_b3 dq ag al cnts (0, 0) = Inr oks" by blast
  then show ?thesis by (simp add: analyze_results_b3_def Let_def)
qed

subsection \<open>Bounds on the matching counts\<close>

lemma analyze_step_bounds:
  assumes "analyze_step cfg tot item t = Inr t'" and "0 \<le> snd item"
  shows "global_ok t \<le> global_ok t' \<and> global_ok t' \<le> global_ok t + snd item
       \<and> localA_ok t \<le> localA_ok t' \<and> localA_ok t' \<le> localA_ok t + snd item
       \<and> localB_ok t \<le> localB_ok t' \<and> localB_ok t' \<le> localB_ok t + snd item"
  using assms by (auto simp: analyze_step_def Let_def split: sum.splits if_splits)

lemma analyze_loop_bounds:
  "analyze_loop cfg tot cnts t = Inr t' \<Longrightarrow> \<forall>item\<in>set cnts. 0 \<le> snd item \<Longrightarrow>
   global_ok t \<le> global_ok t' \<and> global_ok t' \<le> global_ok t + total_of cnts
     \<and> localA_ok t \<le> localA_ok t' \<and> localA_ok t' \<le> localA_ok t + total_of cnts
     \<and> localB_ok t \<le> localB_ok t' \<and> localB_ok t' \<le> localB_ok t + total_of cnts"
proof (induction cnts arbitrary: t)
  case Nil
  then show ?case by (simp add: total_of_def)
next
  case (Cons item rest)
  from Cons.prems(1) obtain t1 where s: "analyze_step cfg tot item t = Inr t1"
    and l: "analyze_loop cfg tot rest t1 = Inr t'"
    by (auto split: sum.splits)
  from analyze_step_bounds[OF s] Cons.prems(2) Cons.IH[OF l] show ?case
    by (simp add: total_of_def)
qed

lemma analyze_step_b3_bounds:
  assumes "analyze_step_b3 dq ag al item oks = Inr oks'" and "0 \<le> snd item"
  shows "fst oks \<le> fst oks' \<and> fst oks' \<le> fst oks + snd item
       \<and> snd oks \<le> snd oks' \<and> snd oks' \<le> snd oks + snd item"
  using assms by (auto simp: analyze_step_b3_def Let_def split: sum.splits if_splits)

lemma analyze_loop_b3_bounds:
  "analyze_loop_b3 dq ag al cnts oks = Inr oks' \<Longrightarrow> \<forall>item\<in>set cnts. 0 \<le> snd item \<Longrightarrow>
   fst oks \<le> fst oks' \<and> fst oks' \<le> fst oks + total_of cnts
     \<and> snd oks \<le> snd oks' \<and> snd oks' \<le> snd oks + total_of cnts"
proof (induction cnts arbitrary: oks)
  case Nil
  then show ?case by (simp add: total_of_def)
next
  case (Cons item rest)
  from Cons.prems(1) obtain o1 where s: "analyze_step_b3 dq ag al item oks = Inr o1"
    and l: "analyze_loop_b3 dq ag al rest o1 = Inr oks'"
    by (auto split: sum.splits)
  from analyze_step_b3_bounds[OF s] Cons.prems(2) Cons.IH[OF l] show ?case
    by (simp add: total_of_def)
qed

lemma ratio_in_unit: "0 \<le> a \<Longrightarrow> a \<le> b \<Longrightarrow> 0 \<le> real_of_int a / real_of_int b \<and> real_of_int a / real_of_int b \<le> 1"
  by (cases "b = 0") (simp_all add: divide_le_eq_1)

text \<open>
  C3. When no count is negative, every matching count the analyzers accumulate lies between
  0 and the total, in both variants; hence every stability they report lies in \<open>[0, 1]\<close>.
\<close>

theorem ok_counts_within_total:
  assumes "\<forall>item\<in>set cnts. 0 \<le> snd item"
  shows "(analyze_loop cfg tot cnts tally0 = Inr t \<longrightarrow>
            0 \<le> global_ok t \<and> global_ok t \<le> total_of cnts
          \<and> 0 \<le> localA_ok t \<and> localA_ok t \<le> total_of cnts
          \<and> 0 \<le> localB_ok t \<and> localB_ok t \<le> total_of cnts)
       \<and> (analyze_results cnts cfg = Inr m \<longrightarrow>
            0 \<le> G m \<and> G m \<le> 1 \<and> 0 \<le> LA m \<and> LA m \<le> 1 \<and> 0 \<le> LB m \<and> LB m \<le> 1)
       \<and> (analyze_loop_b3 dq ag al cnts (0, 0) = Inr oks \<longrightarrow>
            0 \<le> fst oks \<and> fst oks \<le> total_of cnts \<and> 0 \<le> snd oks \<and> snd oks \<le> total_of cnts)
       \<and> (analyze_results_b3 cnts dq ag al = Inr tup \<longrightarrow> (\<forall>x\<in>set tup. 0 \<le> x \<and> x \<le> 1))"
proof (intro conjI impI)
  assume l: "analyze_loop cfg tot cnts tally0 = Inr t"
  from analyze_loop_bounds[OF l assms]
  show "0 \<le> global_ok t" "global_ok t \<le> total_of cnts"
       "0 \<le> localA_ok t" "localA_ok t \<le> total_of cnts"
       "0 \<le> localB_ok t" "localB_ok t \<le> total_of cnts"
    by (simp_all add: tally0_def)
next
  assume r: "analyze_results cnts cfg = Inr m"
  have "0 \<le> G m \<and> G m \<le> 1 \<and> 0 \<le> LA m \<and> LA m \<le> 1 \<and> 0 \<le> LB m \<and> LB m \<le> 1"
  proof (cases "total_of cnts = 0")
    case True
    with r show ?thesis by (auto simp: analyze_results_def)
  next
    case False
    with r obtain t where l: "analyze_loop cfg (total_of cnts) cnts tally0 = Inr t"
      and m: "m = \<lparr>G = real_of_int (global_ok t) / real_of_int (total_of cnts),
                   LA = real_of_int (localA_ok t) / real_of_int (total_of cnts),
                   LB = real_of_int (localB_ok t) / real_of_int (total_of cnts),
                   AI = \<bar>real_of_int (localA_ok t) / real_of_int (total_of cnts)
                        - real_of_int (localB_ok t) / real_of_int (total_of cnts)\<bar>,
                   entropy = shannon (probs t)\<rparr>"
      by (auto simp: analyze_results_def Let_def split: sum.splits)
    from analyze_loop_bounds[OF l assms] have
      "0 \<le> global_ok t" "global_ok t \<le> total_of cnts"
       "0 \<le> localA_ok t" "localA_ok t \<le> total_of cnts"
       "0 \<le> localB_ok t" "localB_ok t \<le> total_of cnts"
      by (simp_all add: tally0_def)
    then show ?thesis
      using ratio_in_unit[of "global_ok t" "total_of cnts"]
        ratio_in_unit[of "localA_ok t" "total_of cnts"]
        ratio_in_unit[of "localB_ok t" "total_of cnts"]
      by (simp add: m)
  qed
  then show "0 \<le> G m" "G m \<le> 1" "0 \<le> LA m" "LA m \<le> 1" "0 \<le> LB m" "LB m \<le> 1"
    by simp_all
next
  assume l: "analyze_loop_b3 dq ag al cnts (0, 0) = Inr oks"
  from analyze_loop_b3_bounds[OF l assms]
  show "0 \<le> fst oks" "fst oks \<le> total_of cnts" "0 \<le> snd oks" "snd oks \<le> total_of cnts"
    by simp_all
next
  assume r: "analyze_results_b3 cnts dq ag al = Inr tup"
  show "\<forall>x\<in>set tup. 0 \<le> x \<and> x \<le> 1"
  proof (cases "total_of cnts = 0")
    case True
    with r show ?thesis by (auto simp: analyze_results_b3_def)
  next
    case False
    with r obtain oks where l: "analyze_loop_b3 dq ag al cnts (0, 0) = Inr oks"
      and tup: "tup = [real_of_int (fst oks) / real_of_int (total_of cnts),
                       real_of_int (snd oks) / real_of_int (total_of cnts)]"
      by (auto simp: analyze_results_b3_def Let_def split: sum.splits)
    from analyze_loop_b3_bounds[OF l assms] have
      "0 \<le> fst oks" "fst oks \<le> total_of cnts" "0 \<le> snd oks" "snd oks \<le> total_of cnts"
      by simp_all
    then show ?thesis
      using ratio_in_unit[of "fst oks" "total_of cnts"] ratio_in_unit[of "snd oks" "total_of cnts"]
      by (simp add: tup)
  qed
qed

theorem ok_counts_within_total_witness:
  "(\<exists>m. analyze_results scenario2 topology_A = Inr m
        \<and> 0 \<le> G m \<and> G m \<le> 1 \<and> 0 \<le> LA m \<and> LA m \<le> 1 \<and> 0 \<le> LB m \<and> LB m \<le> 1)
   \<and> (\<exists>t. analyze_loop topology_A 8192 scenario2 tally0 = Inr t
        \<and> 0 \<le> localA_ok t \<and> localA_ok t \<le> total_of scenario2)"
proof -
  have nonneg: "\<forall>item\<in>set scenario2. 0 \<le> snd item"
    by (simp add: scenario2_def)
  have tot: "total_of scenario2 = 8192"
    by (simp add: total_of_def scenario2_def)
  obtain m where m: "analyze_results scenario2 topology_A = Inr m"
    by (simp add: analyze_results_def Let_def tot scenario2_loop)
  obtain t where t: "analyze_loop topology_A 8192 scenario2 tally0 = Inr t"
    by (simp add: scenario2_loop)
  from ok_counts_within_total[OF nonneg, of topology_A 8192 t m] m t
  show ?thesis by simp
qed

subsection \<open>The reversed string against the un-reversed one\<close>

lemma py_getitem_rev:
  "0 \<le> i \<Longrightarrow> py_getitem (rev bits) i = raw_at bits (int (length bits) - 1 - i)"
  by (auto simp: py_getitem_def raw_at_def Let_def rev_nth nat_diff_distrib' intro!: arg_cong[where f="(!) bits"])

lemma gather_rev:
  "\<forall>i\<in>set nodes. 0 \<le> i \<Longrightarrow> gather (rev bits) nodes = spec_gather_unreversed (length bits) bits nodes"
  by (induction nodes) (auto simp: py_getitem_rev split: sum.splits)

lemma parity_check_rev:
  "\<forall>i\<in>set nodes. 0 \<le> i \<Longrightarrow> 0 \<le> anc \<Longrightarrow>
   parity_check (rev bits) nodes anc = spec_parity_unreversed (length bits) bits nodes anc"
  by (simp add: parity_check_def spec_parity_unreversed_def gather_rev py_getitem_rev
      split: sum.splits)

lemma in_set_take_nonneg: "\<forall>i\<in>set xs. (0::int) \<le> i \<Longrightarrow> \<forall>i\<in>set (take n xs). 0 \<le> i"
  by (auto dest: in_set_takeD)

text \<open>
  C4. For every outcome of any width and every group of positions (non-negative indices),
  the loop bodies of both analyzers, which reverse the string and read position \<open>i\<close> of the
  reversed string for qubit \<open>i\<close>, give the same result (the same updated matching counts, or
  the same failure when a position lies beyond the string) as the loop bodies that read
  position \<open>w - 1 - i\<close> of the string as reported; and so does every single parity check.
\<close>

theorem analyzer_steps_reversal:
  assumes "\<forall>i\<in>set (ghz_indices cfg). 0 \<le> i" and "\<forall>i\<in>set (local_a_indices cfg). 0 \<le> i"
    and "\<forall>i\<in>set (local_b_indices cfg). 0 \<le> i"
    and "\<forall>i\<in>set dq. 0 \<le> i" and "0 \<le> ag" and "0 \<le> al"
  shows "analyze_step cfg tot item t = spec_analyze_step_unreversed cfg tot item t
       \<and> analyze_step_b3 dq ag al item3 oks
           = spec_analyze_step_b3_unreversed dq ag al item3 oks
       \<and> parity_check (rev bits) dq ag
           = spec_parity_unreversed (length bits) bits dq ag"
proof -
  have g: "parity_check (rev (bits_of 9 (fst item))) (ghz_indices cfg) 6
      = spec_parity_unreversed (length (bits_of 9 (fst item))) (bits_of 9 (fst item))
          (ghz_indices cfg) 6"
    by (rule parity_check_rev[OF assms(1)]) simp
  have a: "parity_check (rev (bits_of 9 (fst item))) (local_a_indices cfg) 7
      = spec_parity_unreversed (length (bits_of 9 (fst item))) (bits_of 9 (fst item))
          (local_a_indices cfg) 7"
    by (rule parity_check_rev[OF assms(2)]) simp
  have b: "parity_check (rev (bits_of 9 (fst item))) (local_b_indices cfg) 8
      = spec_parity_unreversed (length (bits_of 9 (fst item))) (bits_of 9 (fst item))
          (local_b_indices cfg) 8"
    by (rule parity_check_rev[OF assms(3)]) simp
  have s1: "analyze_step cfg tot item t = spec_analyze_step_unreversed cfg tot item t"
    unfolding analyze_step_def spec_analyze_step_unreversed_def Let_def g a b ..
  have g3: "parity_check (rev (bits_of 8 (fst item3))) dq ag
      = spec_parity_unreversed (length (bits_of 8 (fst item3))) (bits_of 8 (fst item3))
          dq ag"
    by (rule parity_check_rev[OF assms(4,5)])
  have a3: "parity_check (rev (bits_of 8 (fst item3))) (take 3 dq) al
      = spec_parity_unreversed (length (bits_of 8 (fst item3))) (bits_of 8 (fst item3))
          (take 3 dq) al"
    by (rule parity_check_rev[OF in_set_take_nonneg[OF assms(4)] assms(6)])
  have s2: "analyze_step_b3 dq ag al item3 oks
           = spec_analyze_step_b3_unreversed dq ag al item3 oks"
    unfolding analyze_step_b3_def spec_analyze_step_b3_unreversed_def Let_def g3 a3 ..
  have s3: "parity_check (rev bits) dq ag
           = spec_parity_unreversed (length bits) bits dq ag"
    by (rule parity_check_rev[OF assms(4,5)])
  from s1 s2 s3 show ?thesis by simp
qed

theorem analyzer_steps_reversal_witness:
  "analyze_step topology_A 8 (StrKey ''100000000'', 8) tally0
     = Inr \<lparr>global_ok = 8, localA_ok = 8, localB_ok = 0, probs = [1]\<rparr>
   \<and> spec_analyze_step_unreversed topology_A 8 (StrKey ''100000000'', 8) tally0
     = Inr \<lparr>global_ok = 8, localA_ok = 8, localB_ok = 0, probs = [1]\<rparr>
   \<and> analyze_step_b3 [0, 1, 2, 3, 4, 5] 6 7 (StrKey ''10000000'', 8) (0, 0) = Inr (8, 0)
   \<and> spec_analyze_step_b3_unreversed [0, 1, 2, 3, 4, 5] 6 7 (StrKey ''10000000'', 8) (0, 0)
     = Inr (8, 0)"
proof -
  have h: "\<forall>i\<in>set (ghz_indices topology_A). 0 \<le> i"
    "\<forall>i\<in>set (local_a_indices topology_A). 0 \<le> i"
    "\<forall>i\<in>set (local_b_indices topology_A). 0 \<le> i"
    "\<forall>i\<in>set [0, 1, 2, 3, 4, 5 :: int]. 0 \<le> i" "(0::int) \<le> 6" "(0::int) \<le> 7"
    by (simp_all add: topology_A_def)
  have v: "spec_analyze_step_unreversed topology_A 8 (StrKey ''100000000'', 8) tally0
     = Inr \<lparr>global_ok = 8, localA_ok = 8, localB_ok = 0, probs = [1]\<rparr>"
    by (simp add: spec_analyze_step_unreversed_def topology_A_def tally0_def bits_of_def
        spec_parity_unreversed_def raw_at_def py_int_char_def)
  have v3: "spec_analyze_step_b3_unreversed [0, 1, 2, 3, 4, 5] 6 7 (StrKey ''10000000'', 8) (0, 0)
     = Inr (8, 0)"
    by (simp add: spec_analyze_step_b3_unreversed_def bits_of_def
        spec_parity_unreversed_def raw_at_def py_int_char_def)
  from analyzer_steps_reversal[OF h, where tot = 8 and item = "(StrKey ''100000000'', 8)"
      and t = tally0 and ?item3.0 = "(StrKey ''10000000'', 8)" and oks = "(0, 0)"] v v3
  show ?thesis by simp
qed

subsection \<open>An empty total\<close>

text \<open>
  C5. When the counts sum to zero (the empty distribution included), both analyzers return
  without raising, and every component of what they return is 0: five zeros in the
  triple-ancilla script, three in the dual-ancilla one.
\<close>

theorem zero_total_all_zero: "total_of cnts = 0 \<Longrightarrow>
   analyze_results cnts cfg = Inr \<lparr>G = 0, LA = 0, LB = 0, AI = 0, entropy = 0\<rparr>
   \<and> analyze_results_b3 cnts dq ag al = Inr [0, 0, 0]"
  by (simp add: analyze_results_def analyze_results_b3_def)

theorem zero_total_all_zero_witness: "analyze_results [] topology_A = Inr \<lparr>G = 0, LA = 0, LB = 0, AI = 0, entropy = 0\<rparr>
   \<and> analyze_results_b3 [(StrKey ''00000000'', 0)] [0, 1, 2, 3, 4, 5] 6 7 = Inr [0, 0, 0]"
  using zero_total_all_zero[of "[]" topology_A] zero_total_all_zero[of "[(StrKey ''00000000'', 0)]" _ "[0, 1, 2, 3, 4, 5]" 6 7]
  by (simp add: total_of_def)

subsection \<open>The asymmetry index\<close>

text \<open>
  C2. Whenever the triple-ancilla analyzer returns on a distribution with a positive total,
  the asymmetry it reports is the absolute difference of the local-A and local-B
  stabilities it reports, each being the group's matching count over the total. The
  dual-ancilla script has no local-B group; the asymmetry cell of its ledger row is the
  constant text \<open>0.00\<close>.
\<close>

theorem asymmetry_is_abs_difference:
  assumes "0 < total_of cnts" and "analyze_results cnts cfg = Inr m"
  shows "AI m = \<bar>LA m - LB m\<bar>
       \<and> (\<exists>t. analyze_loop cfg (total_of cnts) cnts tally0 = Inr t
            \<and> LA m = real_of_int (localA_ok t) / real_of_int (total_of cnts)
            \<and> LB m = real_of_int (localB_ok t) / real_of_int (total_of cnts))
       \<and> column ''asymmetry (%)'' (ledger_row_b3 bname label jid g la) = Some (Text ''0.00'')"
  using assms
  by (auto simp: analyze_results_def Let_def column_def ledger_header_def ledger_row_b3_def
      split: sum.splits)

theorem asymmetry_is_abs_difference_witness:
  "0 < total_of scenario2
   \<and> (\<exists>m. analyze_results scenario2 topology_A = Inr m \<and> AI m = \<bar>LA m - LB m\<bar>)"
proof -
  have tot: "total_of scenario2 = 8192"
    by (simp add: total_of_def scenario2_def)
  then have pos: "0 < total_of scenario2" by simp
  obtain m where m: "analyze_results scenario2 topology_A = Inr m"
    by (simp add: analyze_results_def Let_def tot scenario2_loop)
  from asymmetry_is_abs_difference[OF pos m] pos m show ?thesis by simp
qed

section \<open>Properties of the circuit builders\<close>

lemma get_ordered_data_prefix:
  "take (length (local_a_indices cfg)) (get_ordered_data cfg) = local_a_indices cfg"
  by (simp add: get_ordered_data_def Let_def)

lemma mset_ordered:
  assumes "distinct ghz" "distinct la" "set la \<subseteq> set ghz"
  shows "mset (la @ filter (\<lambda>x. x \<notin> set la) ghz) = mset ghz"
proof -
  have "set (filter (\<lambda>x. x \<in> set la) ghz) = set la"
    using assms(3) by auto
  moreover have "distinct (filter (\<lambda>x. x \<in> set la) ghz)"
    using assms(1) by simp
  ultimately have "mset (filter (\<lambda>x. x \<in> set la) ghz) = mset la"
    using assms(2) set_eq_iff_mset_eq_distinct[of "filter (\<lambda>x. x \<in> set la) ghz" la] by blast
  moreover have "mset (filter (\<lambda>x. x \<in> set la) ghz) + mset (filter (\<lambda>x. x \<notin> set la) ghz) = mset ghz"
    by (simp only: mset_filter multiset_partition[symmetric])
  ultimately show ?thesis by (simp only: mset_append)
qed

lemma resolve_bit_within: "0 \<le> i \<Longrightarrow> i < int n \<Longrightarrow> resolve_bit n i = Inr i"
  by (simp add: resolve_bit_def)

lemma h_loop_within:
  "\<forall>q\<in>set xs. 0 \<le> q \<and> q < int (num_qubits qc) \<Longrightarrow>
   h_loop qc xs = Inr (qc\<lparr>instructions := instructions qc @ map H xs\<rparr>)"
  by (induction xs arbitrary: qc) (simp_all add: qc_h_def resolve_bit_within append_gate_def)

lemma cx_loop_within:
  "\<forall>q\<in>set xs. 0 \<le> q \<and> q < int (num_qubits qc) \<and> q \<noteq> anc \<Longrightarrow>
   0 \<le> anc \<Longrightarrow> anc < int (num_qubits qc) \<Longrightarrow>
   cx_loop qc xs anc = Inr (qc\<lparr>instructions := instructions qc @ map (\<lambda>q. CX q anc) xs\<rparr>)"
  by (induction xs arbitrary: qc) (simp_all add: qc_cx_def resolve_bit_within append_gate_def)

lemma measure_loop_within:
  "\<forall>i\<in>set xs. 0 \<le> i \<and> i < int (num_qubits qc) \<and> i < int (num_clbits qc) \<Longrightarrow>
   measure_loop qc xs = Inr (qc\<lparr>instructions := instructions qc @ map (\<lambda>i. Measure i i) xs\<rparr>)"
  by (induction xs arbitrary: qc)
    (simp_all add: qc_measure_def resolve_bit_within append_gate_def)

lemma py_range_9: "py_range 9 = [0, 1, 2, 3, 4, 5, 6, 7, 8]"
  by code_simp

lemma py_range_8: "py_range 8 = [0, 1, 2, 3, 4, 5, 6, 7]"
  by code_simp

lemma build_circuit_program:
  assumes "\<forall>i\<in>set (ghz_indices cfg). 0 \<le> i \<and> i < 6"
    and "\<forall>i\<in>set (local_a_indices cfg). 0 \<le> i \<and> i < 6"
    and "\<forall>i\<in>set (local_b_indices cfg). 0 \<le> i \<and> i < 6"
  shows "build_circuit cfg =
     Inr \<lparr>num_qubits = 9, num_clbits = 9,
          instructions =
            map H (ghz_indices cfg)
            @ map (\<lambda>q. CX q 6) (ghz_indices cfg)
            @ map (\<lambda>q. CX q 7) (local_a_indices cfg)
            @ map (\<lambda>q. CX q 8) (local_b_indices cfg)
            @ map (\<lambda>i. Measure i i) [0, 1, 2, 3, 4, 5, 6, 7, 8]\<rparr>"
proof -
  have h: "h_loop (QuantumCircuit 9 9) (ghz_indices cfg)
      = Inr \<lparr>num_qubits = 9, num_clbits = 9, instructions = map H (ghz_indices cfg)\<rparr>"
    using assms(1) by (subst h_loop_within) (auto simp: QuantumCircuit_def)
  have g: "cx_loop \<lparr>num_qubits = 9, num_clbits = 9, instructions = map H (ghz_indices cfg)\<rparr>
             (ghz_indices cfg) 6
      = Inr \<lparr>num_qubits = 9, num_clbits = 9,
             instructions = map H (ghz_indices cfg) @ map (\<lambda>q. CX q 6) (ghz_indices cfg)\<rparr>"
    using assms(1) by (subst cx_loop_within) auto
  have a: "cx_loop \<lparr>num_qubits = 9, num_clbits = 9,
             instructions = map H (ghz_indices cfg) @ map (\<lambda>q. CX q 6) (ghz_indices cfg)\<rparr>
             (local_a_indices cfg) 7
      = Inr \<lparr>num_qubits = 9, num_clbits = 9,
             instructions = map H (ghz_indices cfg) @ map (\<lambda>q. CX q 6) (ghz_indices cfg)
               @ map (\<lambda>q. CX q 7) (local_a_indices cfg)\<rparr>"
    using assms(2) by (subst cx_loop_within) auto
  have b: "cx_loop \<lparr>num_qubits = 9, num_clbits = 9,
             instructions = map H (ghz_indices cfg) @ map (\<lambda>q. CX q 6) (ghz_indices cfg)
               @ map (\<lambda>q. CX q 7) (local_a_indices cfg)\<rparr>
             (local_b_indices cfg) 8
      = Inr \<lparr>num_qubits = 9, num_clbits = 9,
             instructions = map H (ghz_indices cfg) @ map (\<lambda>q. CX q 6) (ghz_indices cfg)
               @ map (\<lambda>q. CX q 7) (local_a_indices cfg)
               @ map (\<lambda>q. CX q 8) (local_b_indices cfg)\<rparr>"
    using assms(3) by (subst cx_loop_within) auto
  have m: "measure_loop \<lparr>num_qubits = 9, num_clbits = 9,
             instructions = map H (ghz_indices cfg) @ map (\<lambda>q. CX q 6) (ghz_indices cfg)
               @ map (\<lambda>q. CX q 7) (local_a_indices cfg)
               @ map (\<lambda>q. CX q 8) (local_b_indices cfg)\<rparr> [0, 1, 2, 3, 4, 5, 6, 7, 8]
      = Inr \<lparr>num_qubits = 9, num_clbits = 9,
             instructions = map H (ghz_indices cfg) @ map (\<lambda>q. CX q 6) (ghz_indices cfg)
               @ map (\<lambda>q. CX q 7) (local_a_indices cfg)
               @ map (\<lambda>q. CX q 8) (local_b_indices cfg)
               @ map (\<lambda>i. Measure i i) [0, 1, 2, 3, 4, 5, 6, 7, 8]\<rparr>"
    by (subst measure_loop_within) auto
  show ?thesis
    by (simp add: build_circuit_def Let_def h g a b m py_range_9 del: measure_loop.simps)
qed

lemma classical_control_circuit_program:
  assumes "\<forall>i\<in>set (data tm). 0 \<le> i \<and> i < 6" and "anc_global tm = 6" and "anc_local tm = 7"
  shows "classical_control_circuit tm =
     Inr \<lparr>num_qubits = 8, num_clbits = 8,
          instructions =
            map H (data tm)
            @ map (\<lambda>q. CX q 6) (data tm)
            @ map (\<lambda>q. CX q 7) (take 3 (data tm))
            @ map (\<lambda>i. Measure i i) [0, 1, 2, 3, 4, 5, 6, 7]\<rparr>"
proof -
  have t3: "\<forall>i\<in>set (take 3 (data tm)). 0 \<le> i \<and> i < 6"
    using assms(1) by (auto dest: in_set_takeD)
  have h: "h_loop (QuantumCircuit 8 8) (data tm)
      = Inr \<lparr>num_qubits = 8, num_clbits = 8, instructions = map H (data tm)\<rparr>"
    using assms(1) by (subst h_loop_within) (auto simp: QuantumCircuit_def)
  have g: "cx_loop \<lparr>num_qubits = 8, num_clbits = 8, instructions = map H (data tm)\<rparr>
             (data tm) 6
      = Inr \<lparr>num_qubits = 8, num_clbits = 8,
             instructions = map H (data tm) @ map (\<lambda>q. CX q 6) (data tm)\<rparr>"
    using assms(1) by (subst cx_loop_within) auto
  have a: "cx_loop \<lparr>num_qubits = 8, num_clbits = 8,
             instructions = map H (data tm) @ map (\<lambda>q. CX q 6) (data tm)\<rparr>
             (take 3 (data tm)) 7
      = Inr \<lparr>num_qubits = 8, num_clbits = 8,
             instructions = map H (data tm) @ map (\<lambda>q. CX q 6) (data tm)
               @ map (\<lambda>q. CX q 7) (take 3 (data tm))\<rparr>"
    using t3 by (subst cx_loop_within) auto
  have m: "measure_loop \<lparr>num_qubits = 8, num_clbits = 8,
             instructions = map H (data tm) @ map (\<lambda>q. CX q 6) (data tm)
               @ map (\<lambda>q. CX q 7) (take 3 (data tm))\<rparr> [0, 1, 2, 3, 4, 5, 6, 7]
      = Inr \<lparr>num_qubits = 8, num_clbits = 8,
             instructions = map H (data tm) @ map (\<lambda>q. CX q 6) (data tm)
               @ map (\<lambda>q. CX q 7) (take 3 (data tm))
               @ map (\<lambda>i. Measure i i) [0, 1, 2, 3, 4, 5, 6, 7]\<rparr>"
    by (subst measure_loop_within) auto
  show ?thesis
    by (simp add: classical_control_circuit_def Let_def assms(2,3) h g a m py_range_8
        del: measure_loop.simps)
qed

lemma controls_to_append: "controls_to anc (xs @ ys) = controls_to anc xs @ controls_to anc ys"
  by (induction anc xs rule: controls_to.induct) simp_all

lemma controls_to_map_H: "controls_to anc (map H xs) = []"
  by (induction xs) simp_all

lemma controls_to_map_Measure: "controls_to anc (map (\<lambda>i. Measure i i) xs) = []"
  by (induction xs) simp_all

lemma controls_to_map_CX: "controls_to anc (map (\<lambda>q. CX q b) xs) = (if b = anc then xs else [])"
  by (induction xs) auto

lemma get_ordered_data_within:
  assumes "\<forall>i\<in>set (ghz_indices cfg). 0 \<le> i \<and> i < 6"
    and "set (local_a_indices cfg) \<subseteq> set (ghz_indices cfg)"
  shows "\<forall>i\<in>set (get_ordered_data cfg). 0 \<le> i \<and> i < 6"
  using assms by (auto simp: get_ordered_data_def Let_def)

lemma cx_controls_b3:
  assumes "\<forall>i\<in>set (ghz_indices cfg). 0 \<le> i \<and> i < 6"
    and "set (local_a_indices cfg) \<subseteq> set (ghz_indices cfg)"
  shows "\<exists>qc. classical_control_circuit (topology_map_of cfg) = Inr qc
           \<and> cx_controls qc ANC_GLOBAL = get_ordered_data cfg
           \<and> cx_controls qc ANC_LOCAL = take 3 (get_ordered_data cfg)"
proof -
  have "\<forall>i\<in>set (data (topology_map_of cfg)). 0 \<le> i \<and> i < 6"
    using get_ordered_data_within[OF assms] by (simp add: topology_map_of_def)
  from classical_control_circuit_program[OF this]
  show ?thesis
    by (simp add: cx_controls_def topology_map_of_def controls_to_append controls_to_map_H
        controls_to_map_Measure controls_to_map_CX ANC_GLOBAL_def ANC_LOCAL_def)
qed

text \<open>
  C10 (as amended). For every configuration whose two lists have distinct elements, whose
  local-A group is contained in the global group and has exactly three members,
  \<open>get_ordered_data\<close> returns a permutation of the global group (same elements, same
  length) that starts with the local-A group in its order; when moreover the indices of the
  global group lie in the data range 0 to 5, the dual-ancilla circuit is built and wires the
  global ancilla to the whole global group and the local ancilla to exactly the local-A
  group.
\<close>

theorem get_ordered_data_local_a_first:
  assumes "distinct (ghz_indices cfg)" and "distinct (local_a_indices cfg)"
    and "set (local_a_indices cfg) \<subseteq> set (ghz_indices cfg)"
    and "length (local_a_indices cfg) = 3"
  shows "mset (get_ordered_data cfg) = mset (ghz_indices cfg)
       \<and> set (get_ordered_data cfg) = set (ghz_indices cfg)
       \<and> length (get_ordered_data cfg) = length (ghz_indices cfg)
       \<and> take 3 (get_ordered_data cfg) = local_a_indices cfg
       \<and> ((\<forall>i\<in>set (ghz_indices cfg). 0 \<le> i \<and> i < 6) \<longrightarrow>
            (\<exists>qc. classical_control_circuit (topology_map_of cfg) = Inr qc
               \<and> mset (cx_controls qc ANC_GLOBAL) = mset (ghz_indices cfg)
               \<and> cx_controls qc ANC_LOCAL = local_a_indices cfg))"
proof -
  have m: "mset (get_ordered_data cfg) = mset (ghz_indices cfg)"
    using mset_ordered[OF assms(1,2,3)] by (simp add: get_ordered_data_def Let_def)
  have t: "take 3 (get_ordered_data cfg) = local_a_indices cfg"
    using get_ordered_data_prefix[of cfg] assms(4) by simp
  from m have s: "set (get_ordered_data cfg) = set (ghz_indices cfg)"
    by (rule mset_eq_setD)
  from m have l: "length (get_ordered_data cfg) = length (ghz_indices cfg)"
    by (rule mset_eq_length)
  have w: "\<exists>qc. classical_control_circuit (topology_map_of cfg) = Inr qc
               \<and> mset (cx_controls qc ANC_GLOBAL) = mset (ghz_indices cfg)
               \<and> cx_controls qc ANC_LOCAL = local_a_indices cfg"
    if r: "\<forall>i\<in>set (ghz_indices cfg). 0 \<le> i \<and> i < 6"
    using cx_controls_b3[OF r assms(3)] m t by auto
  from m s l t w show ?thesis by blast
qed

theorem get_ordered_data_local_a_first_witness:
  "get_ordered_data topology_D = [0, 2, 4, 1, 3, 5]
   \<and> mset (get_ordered_data topology_D) = mset (ghz_indices topology_D)
   \<and> take 3 (get_ordered_data topology_D) = local_a_indices topology_D
   \<and> built_cx_controls (classical_control_circuit (topology_map_of topology_D)) ANC_GLOBAL
       = Inr [0, 2, 4, 1, 3, 5]
   \<and> built_cx_controls (classical_control_circuit (topology_map_of topology_D)) ANC_LOCAL
       = Inr [0, 2, 4]"
proof -
  have h: "distinct (ghz_indices topology_D)" "distinct (local_a_indices topology_D)"
    "set (local_a_indices topology_D) \<subseteq> set (ghz_indices topology_D)"
    "length (local_a_indices topology_D) = 3"
    by (simp_all add: topology_D_def)
  have r: "\<forall>i\<in>set (ghz_indices topology_D). 0 \<le> i \<and> i < 6"
    by (simp add: topology_D_def)
  have c: "\<exists>qc. classical_control_circuit (topology_map_of topology_D) = Inr qc
           \<and> cx_controls qc ANC_GLOBAL = get_ordered_data topology_D
           \<and> cx_controls qc ANC_LOCAL = take 3 (get_ordered_data topology_D)"
    by (rule cx_controls_b3[OF r h(3)])
  have o: "get_ordered_data topology_D = [0, 2, 4, 1, 3, 5]"
    by (simp add: topology_D_def get_ordered_data_def)
  from get_ordered_data_local_a_first[OF h] r c o show ?thesis
    by (auto simp: built_cx_controls_def topology_D_def)
qed

text \<open>
  C10 (as stated) fails when the local-A group does not have three members: with global
  group \<open>[0, \<dots>, 5]\<close> and local-A group \<open>[0, 1]\<close> the first three elements are \<open>[0, 1, 2]\<close>,
  and the local ancilla is wired to qubit 2 as well.
\<close>

theorem get_ordered_data_short_group:
  "distinct (ghz_indices config_short) \<and> distinct (local_a_indices config_short)
   \<and> set (local_a_indices config_short) \<subseteq> set (ghz_indices config_short)
   \<and> take 3 (get_ordered_data config_short) = [0, 1, 2]
   \<and> local_a_indices config_short = [0, 1]
   \<and> built_cx_controls (classical_control_circuit (topology_map_of config_short)) ANC_LOCAL
       = Inr [0, 1, 2]"
proof -
  have r: "\<forall>i\<in>set (ghz_indices config_short). 0 \<le> i \<and> i < 6"
    and sub: "set (local_a_indices config_short) \<subseteq> set (ghz_indices config_short)"
    by (simp_all add: config_short_def)
  have o: "get_ordered_data config_short = [0, 1, 2, 3, 4, 5]"
    by (simp add: config_short_def get_ordered_data_def)
  from cx_controls_b3[OF r sub] o show ?thesis
    by (auto simp: built_cx_controls_def config_short_def)
qed

text \<open>
  Outside the data range the builder does not return the wiring: with the global ancilla's
  index 6 in the global group, the controlled-NOT from qubit 6 to qubit 6 is refused.
\<close>

lemma ancilla_in_group_refused:
  "distinct (ghz_indices config_anc_overlap) \<and> distinct (local_a_indices config_anc_overlap)
   \<and> set (local_a_indices config_anc_overlap) \<subseteq> set (ghz_indices config_anc_overlap)
   \<and> length (local_a_indices config_anc_overlap) = 3
   \<and> classical_control_circuit (topology_map_of config_anc_overlap) = Inl CircuitError"
  by (simp add: config_anc_overlap_def topology_map_of_def get_ordered_data_def
      classical_control_circuit_def QuantumCircuit_def qc_h_def qc_cx_def resolve_bit_def
      append_gate_def ANC_GLOBAL_def ANC_LOCAL_def)

subsection \<open>The shape of the built programs\<close>

lemma registered_cases:
  assumes "(label, cfg) \<in> set TOPOLOGIES"
  shows "cfg = \<lparr>ghz_indices = [0, 1, 2, 3, 4, 5], local_a_indices = [0, 1, 2],
                 local_b_indices = [3, 4, 5]\<rparr>
       \<or> cfg = \<lparr>ghz_indices = [1, 2, 3, 4, 5, 0], local_a_indices = [1, 2, 3],
                 local_b_indices = [4, 5, 0]\<rparr>
       \<or> cfg = \<lparr>ghz_indices = [2, 3, 4, 5, 0, 1], local_a_indices = [2, 3, 4],
                 local_b_indices = [5, 0, 1]\<rparr>
       \<or> cfg = \<lparr>ghz_indices = [0, 1, 2, 3, 4, 5], local_a_indices = [0, 2, 4],
                 local_b_indices = [1, 3, 5]\<rparr>"
  using assms by (auto simp: TOPOLOGIES_def)

lemma registered_wf:
  assumes "(label, cfg) \<in> set TOPOLOGIES"
  shows "distinct (ghz_indices cfg)" "distinct (local_a_indices cfg)"
    "set (local_a_indices cfg) \<subseteq> set (ghz_indices cfg)" "length (local_a_indices cfg) = 3"
    "set (ghz_indices cfg) = {0, 1, 2, 3, 4, 5}"
  using registered_cases[OF assms] by auto

lemma registered_within:
  assumes "(label, cfg) \<in> set TOPOLOGIES"
  shows "\<forall>i\<in>set (ghz_indices cfg). 0 \<le> i \<and> i < 6"
    "\<forall>i\<in>set (local_a_indices cfg). 0 \<le> i \<and> i < 6"
    "\<forall>i\<in>set (local_b_indices cfg). 0 \<le> i \<and> i < 6"
  using registered_cases[OF assms] by auto

lemma no_coupling_program:
  assumes "6 \<notin> D" "7 \<notin> D" "8 \<notin> D"
  shows "\<forall>g\<in>set (map H xs @ map (\<lambda>q. CX q 6) xs @ map (\<lambda>q. CX q 7) ys
                   @ map (\<lambda>q. CX q 8) zs @ map (\<lambda>i. Measure i i) ms).
           \<not> couples_data D g"
  using assms by (auto simp: couples_data_def)

lemma no_coupling_program_b3:
  assumes "6 \<notin> D" "7 \<notin> D"
  shows "\<forall>g\<in>set (map H xs @ map (\<lambda>q. CX q 6) xs @ map (\<lambda>q. CX q 7) ys
                   @ map (\<lambda>i. Measure i i) ms).
           \<not> couples_data D g"
  using assms by (auto simp: couples_data_def)

text \<open>
  C6. For each of the four registered topologies, both builders return a program. The
  triple-ancilla program on 9 wires is: a Hadamard on every member of the global group, a
  controlled-NOT from every member of the global group to qubit 6, from every member of the
  local-A group to qubit 7, from every member of the local-B group to qubit 8, and the
  measurement of qubit \<open>i\<close> into bit \<open>i\<close> for \<open>i = 0, \<dots>, 8\<close>. The dual-ancilla program on 8
  wires is: a Hadamard on every data qubit (the global group, reordered local-A first), a
  controlled-NOT from each of them to qubit 6, from every member of the local-A group to
  qubit 7, and the measurement of qubit \<open>i\<close> into bit \<open>i\<close> for \<open>i = 0, \<dots>, 7\<close>. The data
  qubits are pairwise different, and no instruction of either program is a two-qubit gate
  between two data qubits.
\<close>

theorem circuit_program_shape:
  assumes "(label, cfg) \<in> set TOPOLOGIES"
  shows "build_circuit cfg =
           Inr \<lparr>num_qubits = 9, num_clbits = 9,
                instructions =
                  map H (ghz_indices cfg)
                  @ map (\<lambda>q. CX q 6) (ghz_indices cfg)
                  @ map (\<lambda>q. CX q 7) (local_a_indices cfg)
                  @ map (\<lambda>q. CX q 8) (local_b_indices cfg)
                  @ map (\<lambda>i. Measure i i) [0, 1, 2, 3, 4, 5, 6, 7, 8]\<rparr>
       \<and> classical_control_circuit (topology_map_of cfg) =
           Inr \<lparr>num_qubits = 8, num_clbits = 8,
                instructions =
                  map H (get_ordered_data cfg)
                  @ map (\<lambda>q. CX q 6) (get_ordered_data cfg)
                  @ map (\<lambda>q. CX q 7) (local_a_indices cfg)
                  @ map (\<lambda>i. Measure i i) [0, 1, 2, 3, 4, 5, 6, 7]\<rparr>
       \<and> distinct (ghz_indices cfg)
       \<and> mset (get_ordered_data cfg) = mset (ghz_indices cfg)
       \<and> (\<forall>qc. build_circuit cfg = Inr qc \<longrightarrow>
             (\<forall>g\<in>set (instructions qc). \<not> couples_data (set (ghz_indices cfg)) g))
       \<and> (\<forall>qc. classical_control_circuit (topology_map_of cfg) = Inr qc \<longrightarrow>
             (\<forall>g\<in>set (instructions qc). \<not> couples_data (set (ghz_indices cfg)) g))"
proof -
  note wf = registered_wf[OF assms]
  note rg = registered_within[OF assms]
  have t: "take 3 (get_ordered_data cfg) = local_a_indices cfg"
    using get_ordered_data_prefix[of cfg] wf(4) by simp
  have m: "mset (get_ordered_data cfg) = mset (ghz_indices cfg)"
    using mset_ordered[OF wf(1,2,3)] by (simp add: get_ordered_data_def Let_def)
  have c: "build_circuit cfg =
           Inr \<lparr>num_qubits = 9, num_clbits = 9,
                instructions =
                  map H (ghz_indices cfg)
                  @ map (\<lambda>q. CX q 6) (ghz_indices cfg)
                  @ map (\<lambda>q. CX q 7) (local_a_indices cfg)
                  @ map (\<lambda>q. CX q 8) (local_b_indices cfg)
                  @ map (\<lambda>i. Measure i i) [0, 1, 2, 3, 4, 5, 6, 7, 8]\<rparr>"
    by (rule build_circuit_program[OF rg])
  have d: "\<forall>i\<in>set (data (topology_map_of cfg)). 0 \<le> i \<and> i < 6"
    using get_ordered_data_within[OF rg(1) wf(3)] by (simp add: topology_map_of_def)
  have b: "classical_control_circuit (topology_map_of cfg) =
           Inr \<lparr>num_qubits = 8, num_clbits = 8,
                instructions =
                  map H (get_ordered_data cfg)
                  @ map (\<lambda>q. CX q 6) (get_ordered_data cfg)
                  @ map (\<lambda>q. CX q 7) (local_a_indices cfg)
                  @ map (\<lambda>i. Measure i i) [0, 1, 2, 3, 4, 5, 6, 7]\<rparr>"
    using classical_control_circuit_program[OF d] t
    by (simp add: topology_map_of_def ANC_GLOBAL_def ANC_LOCAL_def)
  have out: "6 \<notin> set (ghz_indices cfg)" "7 \<notin> set (ghz_indices cfg)"
    "8 \<notin> set (ghz_indices cfg)"
    by (simp_all add: wf(5))
  have n1: "\<forall>qc. build_circuit cfg = Inr qc \<longrightarrow>
             (\<forall>g\<in>set (instructions qc). \<not> couples_data (set (ghz_indices cfg)) g)"
  proof (intro allI impI)
    fix qc
    assume "build_circuit cfg = Inr qc"
    with c have i: "instructions qc =
        map H (ghz_indices cfg)
        @ map (\<lambda>q. CX q 6) (ghz_indices cfg)
        @ map (\<lambda>q. CX q 7) (local_a_indices cfg)
        @ map (\<lambda>q. CX q 8) (local_b_indices cfg)
        @ map (\<lambda>i. Measure i i) [0, 1, 2, 3, 4, 5, 6, 7, 8]"
      by simp
    show "\<forall>g\<in>set (instructions qc). \<not> couples_data (set (ghz_indices cfg)) g"
      unfolding i by (rule no_coupling_program[OF out])
  qed
  have n2: "\<forall>qc. classical_control_circuit (topology_map_of cfg) = Inr qc \<longrightarrow>
             (\<forall>g\<in>set (instructions qc). \<not> couples_data (set (ghz_indices cfg)) g)"
  proof (intro allI impI)
    fix qc
    assume "classical_control_circuit (topology_map_of cfg) = Inr qc"
    with b have i: "instructions qc =
        map H (get_ordered_data cfg)
        @ map (\<lambda>q. CX q 6) (get_ordered_data cfg)
        @ map (\<lambda>q. CX q 7) (local_a_indices cfg)
        @ map (\<lambda>i. Measure i i) [0, 1, 2, 3, 4, 5, 6, 7]"
      by simp
    show "\<forall>g\<in>set (instructions qc). \<not> couples_data (set (ghz_indices cfg)) g"
      unfolding i by (rule no_coupling_program_b3[OF out(1,2)])
  qed
  from c b wf(1) m n1 n2 show ?thesis by blast
qed

theorem circuit_program_shape_witness:
  "build_circuit topology_D =
     Inr \<lparr>num_qubits = 9, num_clbits = 9,
          instructions =
            [H 0, H 1, H 2, H 3, H 4, H 5,
             CX 0 6, CX 1 6, CX 2 6, CX 3 6, CX 4 6, CX 5 6,
             CX 0 7, CX 2 7, CX 4 7,
             CX 1 8, CX 3 8, CX 5 8,
             Measure 0 0, Measure 1 1, Measure 2 2, Measure 3 3, Measure 4 4, Measure 5 5,
             Measure 6 6, Measure 7 7, Measure 8 8]\<rparr>
   \<and> classical_control_circuit (topology_map_of topology_D) =
     Inr \<lparr>num_qubits = 8, num_clbits = 8,
          instructions =
            [H 0, H 2, H 4, H 1, H 3, H 5,
             CX 0 6, CX 2 6, CX 4 6, CX 1 6, CX 3 6, CX 5 6,
             CX 0 7, CX 2 7, CX 4 7,
             Measure 0 0, Measure 1 1, Measure 2 2, Measure 3 3, Measure 4 4, Measure 5 5,
             Measure 6 6, Measure 7 7]\<rparr>"
proof -
  have "(''D'', topology_D) \<in> set TOPOLOGIES"
    by (simp add: TOPOLOGIES_def topology_D_def)
  from circuit_program_shape[OF this] show ?thesis
    by (simp add: topology_D_def get_ordered_data_def)
qed

section \<open>Properties of the orchestrator\<close>

subsection \<open>The ledger of the dual-ancilla script\<close>

lemma collect_one_b3_ledger:
  "\<exists>rows. ledger (collect_one_b3 bname entry s) = ledger s @ rows
     \<and> (\<forall>r\<in>set rows. \<exists>label jid g la. r = ledger_row_b3 bname label jid g la)"
  by (auto simp: collect_one_b3_def Let_def split: sum.splits list.splits)

lemma collection_phase_b3_ledger:
  "\<exists>rows. ledger (collection_phase_b3 bname entries s) = ledger s @ rows
     \<and> (\<forall>r\<in>set rows. \<exists>label jid g la. r = ledger_row_b3 bname label jid g la)"
proof (induction entries arbitrary: s)
  case Nil
  then show ?case by simp
next
  case (Cons entry rest)
  obtain r1 where r1: "ledger (collect_one_b3 bname entry s) = ledger s @ r1"
    "\<forall>r\<in>set r1. \<exists>label jid g la. r = ledger_row_b3 bname label jid g la"
    using collect_one_b3_ledger by blast
  obtain r2 where r2: "ledger (collection_phase_b3 bname rest (collect_one_b3 bname entry s))
      = ledger (collect_one_b3 bname entry s) @ r2"
    "\<forall>r\<in>set r2. \<exists>label jid g la. r = ledger_row_b3 bname label jid g la"
    using Cons.IH by blast
  show ?case
    by (rule exI[of _ "r1 @ r2"]) (use r1 r2 in auto)
qed

lemma collection_b3_example:
  "collection_phase_b3 ''ibm_torino'' [entry_ok_b3, entry_empty_b3] \<lparr>ledger = [], col_log = []\<rparr>
     = \<lparr>ledger = [[Text ''ibm_torino'', Text ''A'', Text ''job-1'', Fixed2 100, Fixed2 100,
                   Text ''0.00'', Text ''0.00'', Num 8192]],
        col_log = [Waiting ''job-1'' ''A'', Done ''job-1'', Waiting ''job-2'' ''A'',
                   Failed ''job-2'' ValueError]\<rparr>"
  by (simp add: collect_one_b3_def entry_ok_b3_def entry_empty_b3_def Let_def
      topology_map_of_def topology_A_def get_ordered_data_def ANC_GLOBAL_def ANC_LOCAL_def
      analyze_results_b3_def total_of_def analyze_step_b3_def bits_of_def parity_check_def
      py_getitem_def py_int_char_def ledger_row_b3_def SHOTS_def)

text \<open>
  C7. The collection phase of the dual-ancilla script only appends to the ledger, and every
  row it appends carries the constant text \<open>0.00\<close> in the local-B column and in the asymmetry
  column, whatever the analyzed distributions were.
\<close>

theorem b3_rows_literal_zero:
  "take (length (ledger s)) (ledger (collection_phase_b3 bname entries s)) = ledger s
   \<and> (\<forall>r\<in>set (drop (length (ledger s)) (ledger (collection_phase_b3 bname entries s))).
        column ''local_B (%)'' r = Some (Text ''0.00'')
        \<and> column ''asymmetry (%)'' r = Some (Text ''0.00''))"
proof -
  obtain rows where rows: "ledger (collection_phase_b3 bname entries s) = ledger s @ rows"
    "\<forall>r\<in>set rows. \<exists>label jid g la. r = ledger_row_b3 bname label jid g la"
    using collection_phase_b3_ledger by blast
  have "column ''local_B (%)'' (ledger_row_b3 bname label jid g la) = Some (Text ''0.00'')
      \<and> column ''asymmetry (%)'' (ledger_row_b3 bname label jid g la) = Some (Text ''0.00'')"
    for label jid g la
    by (simp add: column_def ledger_header_def ledger_row_b3_def)
  with rows show ?thesis by auto
qed

theorem b3_rows_literal_zero_witness:
  "ledger (collection_phase_b3 ''ibm_torino'' [entry_ok_b3, entry_empty_b3]
             \<lparr>ledger = [], col_log = []\<rparr>)
     = [[Text ''ibm_torino'', Text ''A'', Text ''job-1'', Fixed2 100, Fixed2 100,
         Text ''0.00'', Text ''0.00'', Num 8192]]
   \<and> column ''local_B (%)''
        [Text ''ibm_torino'', Text ''A'', Text ''job-1'', Fixed2 100, Fixed2 100,
         Text ''0.00'', Text ''0.00'', Num 8192] = Some (Text ''0.00'')
   \<and> column ''asymmetry (%)''
        [Text ''ibm_torino'', Text ''A'', Text ''job-1'', Fixed2 100, Fixed2 100,
         Text ''0.00'', Text ''0.00'', Num 8192] = Some (Text ''0.00'')"
proof -
  have l: "ledger (collection_phase_b3 ''ibm_torino'' [entry_ok_b3, entry_empty_b3]
             \<lparr>ledger = [], col_log = []\<rparr>)
     = [[Text ''ibm_torino'', Text ''A'', Text ''job-1'', Fixed2 100, Fixed2 100,
         Text ''0.00'', Text ''0.00'', Num 8192]]"
    unfolding collection_b3_example by simp
  from b3_rows_literal_zero[of "\<lparr>ledger = [], col_log = []\<rparr>" "''ibm_torino''"
      "[entry_ok_b3, entry_empty_b3]"]
  show ?thesis unfolding l by simp
qed

subsection \<open>What the submission loops do when the optimizer answers\<close>

lemma attempts_append: "attempts (xs @ ys) = attempts xs @ attempts ys"
  by (induction xs rule: attempts.induct) simp_all

lemma visits_append: "visits (xs @ ys) = visits xs @ visits ys"
  by (induction xs rule: visits.induct) simp_all

lemma submit_one_ok:
  assumes "\<not> isl (optimized env label i built)"
  shows "\<exists>s'. submit_one env built mk_entry label i s = Inr s'
           \<and> attempts (sub_log s') = attempts (sub_log s) @ [(label, i)]
           \<and> submitted_jobs s' = submitted_jobs s
               @ opt_to_list (map_option (\<lambda>r. mk_entry (fst r) (snd r)) (submission_result env built label i))"
  using assms
  by (auto simp: submit_one_def submission_result_def optimized_def opt_to_list_def
      attempts_append Let_def split: sum.splits)

lemma submit_reps_ok:
  assumes "\<forall>i\<in>set reps. \<not> isl (optimized env label i (build_circuit cfg))"
  shows "\<exists>s'. submit_reps env label cfg reps s = Inr s'
           \<and> attempts (sub_log s') = attempts (sub_log s) @ map (\<lambda>i. (label, i)) reps
           \<and> submitted_jobs s' = submitted_jobs s
               @ concat (map (\<lambda>i. opt_to_list (submitted_entry env (label, cfg, i))) reps)"
  using assms
proof (induction reps arbitrary: s)
  case Nil
  then show ?case by simp
next
  case (Cons i rest)
  from Cons.prems have ok: "\<not> isl (optimized env label i (build_circuit cfg))" by simp
  from submit_one_ok[OF ok] obtain s1 where
    s1: "submit_one env (build_circuit cfg)
           (\<lambda>jb jid. \<lparr>job = jb, job_id = jid, run_label = label, config = cfg, rep = i\<rparr>)
           label i s = Inr s1"
    "attempts (sub_log s1) = attempts (sub_log s) @ [(label, i)]"
    "submitted_jobs s1 = submitted_jobs s @ opt_to_list (submitted_entry env (label, cfg, i))"
    unfolding submitted_entry_def by fastforce
  from Cons.prems have "\<forall>i\<in>set rest. \<not> isl (optimized env label i (build_circuit cfg))" by simp
  from Cons.IH[OF this, of s1] s1 show ?case by auto
qed

lemma submit_topologies_ok:
  assumes "\<forall>lc\<in>set tops. \<forall>i\<in>set repetition_range.
             \<not> isl (optimized env (fst lc) i (build_circuit (snd lc)))"
  shows "\<exists>s'. submit_topologies env tops s = Inr s'
           \<and> attempts (sub_log s') = attempts (sub_log s)
               @ concat (map (\<lambda>lc. map (\<lambda>i. (fst lc, i)) repetition_range) tops)
           \<and> submitted_jobs s' = submitted_jobs s
               @ concat (map (\<lambda>lc. concat (map (\<lambda>i. opt_to_list (submitted_entry env (fst lc, snd lc, i))) repetition_range)) tops)"
  using assms
proof (induction tops arbitrary: s)
  case Nil
  then show ?case by simp
next
  case (Cons lc rest)
  from Cons.prems have "\<forall>i\<in>set repetition_range. \<not> isl (optimized env (fst lc) i (build_circuit (snd lc)))"
    by simp
  from submit_reps_ok[OF this, of s] obtain s1 where
    s1: "submit_reps env (fst lc) (snd lc) repetition_range s = Inr s1"
    "attempts (sub_log s1) = attempts (sub_log s) @ map (\<lambda>i. (fst lc, i)) repetition_range"
    "submitted_jobs s1 = submitted_jobs s
       @ concat (map (\<lambda>i. opt_to_list (submitted_entry env (fst lc, snd lc, i))) repetition_range)"
    by blast
  from Cons.prems have "\<forall>lc\<in>set rest. \<forall>i\<in>set repetition_range.
             \<not> isl (optimized env (fst lc) i (build_circuit (snd lc)))" by simp
  from Cons.IH[OF this, of s1] s1 show ?case by auto
qed

lemma concat_pairs:
  "concat (map f (concat (map (\<lambda>lc. map (\<lambda>i. (fst lc, snd lc, i)) reps) tops)))
     = concat (map (\<lambda>lc. concat (map (\<lambda>i. f (fst lc, snd lc, i)) reps)) tops)"
  by (induction tops) (simp_all add: comp_def)

lemma pairs_attempts:
  "map (\<lambda>p. (fst p, snd (snd p))) (concat (map (\<lambda>lc. map (\<lambda>i. (fst lc, snd lc, i)) reps) tops))
     = concat (map (\<lambda>lc. map (\<lambda>i. (fst lc, i)) reps) tops)"
  by (induction tops) (simp_all add: comp_def)

lemma submission_phase_ok:
  assumes "\<forall>p\<in>set campaign_pairs.
             \<not> isl (optimized env (fst p) (snd (snd p)) (build_circuit (fst (snd p))))"
  shows "\<exists>s. submission_phase env = Inr s
           \<and> attempts (sub_log s) = map (\<lambda>p. (fst p, snd (snd p))) campaign_pairs
           \<and> submitted_jobs s = concat (map (\<lambda>p. opt_to_list (submitted_entry env p)) campaign_pairs)"
proof -
  have "\<forall>lc\<in>set TOPOLOGIES. \<forall>i\<in>set repetition_range.
             \<not> isl (optimized env (fst lc) i (build_circuit (snd lc)))"
    using assms unfolding campaign_pairs_def by fastforce
  from submit_topologies_ok[OF this, of "\<lparr>submitted_jobs = [], sub_log = []\<rparr>"]
  show ?thesis
    unfolding submission_phase_def campaign_pairs_def pairs_attempts concat_pairs
    by simp
qed


lemma submit_reps_b3_ok:
  assumes "\<forall>i\<in>set reps. \<not> isl (optimized env label i (classical_control_circuit (topology_map_of cfg)))"
  shows "\<exists>s'. submit_reps_b3 env label cfg (topology_map_of cfg) reps s = Inr s'
           \<and> attempts (sub_log s') = attempts (sub_log s) @ map (\<lambda>i. (label, i)) reps
           \<and> submitted_jobs s' = submitted_jobs s
               @ concat (map (\<lambda>i. opt_to_list (submitted_entry_b3 env (label, cfg, i))) reps)"
  using assms
proof (induction reps arbitrary: s)
  case Nil
  then show ?case by simp
next
  case (Cons i rest)
  from Cons.prems have ok: "\<not> isl (optimized env label i (classical_control_circuit (topology_map_of cfg)))"
    by simp
  from submit_one_ok[OF ok] obtain s1 where
    s1: "submit_one env (classical_control_circuit (topology_map_of cfg))
           (\<lambda>jb jid. \<lparr>job = jb, job_id = jid, run_label = label, config = cfg, rep = i,
                       topology_map = topology_map_of cfg\<rparr>)
           label i s = Inr s1"
    "attempts (sub_log s1) = attempts (sub_log s) @ [(label, i)]"
    "submitted_jobs s1 = submitted_jobs s @ opt_to_list (submitted_entry_b3 env (label, cfg, i))"
    unfolding submitted_entry_b3_def by fastforce
  from Cons.prems have "\<forall>i\<in>set rest.
      \<not> isl (optimized env label i (classical_control_circuit (topology_map_of cfg)))" by simp
  from Cons.IH[OF this, of s1] s1 show ?case by auto
qed

lemma submit_topologies_b3_ok:
  assumes "\<forall>lc\<in>set tops. \<forall>i\<in>set repetition_range.
             \<not> isl (optimized env (fst lc) i (classical_control_circuit (topology_map_of (snd lc))))"
  shows "\<exists>s'. submit_topologies_b3 env tops s = Inr s'
           \<and> attempts (sub_log s') = attempts (sub_log s)
               @ concat (map (\<lambda>lc. map (\<lambda>i. (fst lc, i)) repetition_range) tops)
           \<and> submitted_jobs s' = submitted_jobs s
               @ concat (map (\<lambda>lc. concat (map (\<lambda>i. opt_to_list (submitted_entry_b3 env (fst lc, snd lc, i))) repetition_range)) tops)"
  using assms
proof (induction tops arbitrary: s)
  case Nil
  then show ?case by simp
next
  case (Cons lc rest)
  from Cons.prems have "\<forall>i\<in>set repetition_range.
      \<not> isl (optimized env (fst lc) i (classical_control_circuit (topology_map_of (snd lc))))"
    by simp
  from submit_reps_b3_ok[OF this, of s] obtain s1 where
    s1: "submit_reps_b3 env (fst lc) (snd lc) (topology_map_of (snd lc)) repetition_range s = Inr s1"
    "attempts (sub_log s1) = attempts (sub_log s) @ map (\<lambda>i. (fst lc, i)) repetition_range"
    "submitted_jobs s1 = submitted_jobs s
       @ concat (map (\<lambda>i. opt_to_list (submitted_entry_b3 env (fst lc, snd lc, i))) repetition_range)"
    by blast
  from Cons.prems have "\<forall>lc\<in>set rest. \<forall>i\<in>set repetition_range.
      \<not> isl (optimized env (fst lc) i (classical_control_circuit (topology_map_of (snd lc))))"
    by simp
  from Cons.IH[OF this, of s1] s1 show ?case by auto
qed

lemma submission_phase_b3_ok:
  assumes "\<forall>p\<in>set campaign_pairs.
             \<not> isl (optimized env (fst p) (snd (snd p))
                      (classical_control_circuit (topology_map_of (fst (snd p)))))"
  shows "\<exists>s. submission_phase_b3 env = Inr s
           \<and> attempts (sub_log s) = map (\<lambda>p. (fst p, snd (snd p))) campaign_pairs
           \<and> submitted_jobs s = concat (map (\<lambda>p. opt_to_list (submitted_entry_b3 env p)) campaign_pairs)"
proof -
  have "\<forall>lc\<in>set TOPOLOGIES. \<forall>i\<in>set repetition_range.
      \<not> isl (optimized env (fst lc) i (classical_control_circuit (topology_map_of (snd lc))))"
    using assms unfolding campaign_pairs_def by fastforce
  from submit_topologies_b3_ok[OF this, of "\<lparr>submitted_jobs = [], sub_log = []\<rparr>"]
  show ?thesis
    unfolding submission_phase_b3_def campaign_pairs_def pairs_attempts concat_pairs
    by simp
qed

subsection \<open>What one pass of a collection loop does\<close>

lemma collect_one_effect:
  "ledger (collect_one bname entry s) = ledger s @ opt_to_list (entry_row bname entry)
   \<and> visits (col_log (collect_one bname entry s))
       = visits (col_log s) @ [(job_id entry, run_label entry)]"
  by (simp add: collect_one_def entry_row_def opt_to_list_def visits_append Let_def
      split: sum.splits)

lemma collect_one_b3_effect:
  "ledger (collect_one_b3 bname entry s) = ledger s @ rows_written_b3 bname entry
   \<and> visits (col_log (collect_one_b3 bname entry s))
       = visits (col_log s) @ [(job_id entry, run_label entry)]"
  by (auto simp: collect_one_b3_def rows_written_b3_def visits_append Let_def
      split: sum.splits list.splits)

lemma collection_phase_effect:
  "ledger (collection_phase bname entries s)
       = ledger s @ concat (map (\<lambda>e. opt_to_list (entry_row bname e)) entries)
   \<and> visits (col_log (collection_phase bname entries s))
       = visits (col_log s) @ map (\<lambda>e. (job_id e, run_label e)) entries"
  by (induction entries arbitrary: s) (simp_all add: collect_one_effect)

lemma collection_phase_b3_effect:
  "ledger (collection_phase_b3 bname entries s)
       = ledger s @ concat (map (\<lambda>e. rows_written_b3 bname e) entries)
   \<and> visits (col_log (collection_phase_b3 bname entries s))
       = visits (col_log s) @ map (\<lambda>e. (job_id e, run_label e)) entries"
  by (induction entries arbitrary: s) (simp_all add: collect_one_b3_effect)

subsection \<open>Failures during submission\<close>

lemma repetition_range_value: "repetition_range = [1, 2, 3, 4, 5]"
  by code_simp

lemma campaign_pairs_value:
  "map (\<lambda>p. (fst p, snd (snd p))) campaign_pairs =
     [(''A'', 1), (''A'', 2), (''A'', 3), (''A'', 4), (''A'', 5),
      (''B'', 1), (''B'', 2), (''B'', 3), (''B'', 4), (''B'', 5),
      (''C'', 1), (''C'', 2), (''C'', 3), (''C'', 4), (''C'', 5),
      (''D'', 1), (''D'', 2), (''D'', 3), (''D'', 4), (''D'', 5)]"
  by (simp add: campaign_pairs_def TOPOLOGIES_def repetition_range_value)

lemma fails_twice_jobs:
  "map (\<lambda>e. (run_label e, rep e))
     (concat (map (\<lambda>p. opt_to_list (submitted_entry env_submission_fails_twice p)) campaign_pairs))
   = [(''A'', 1), (''A'', 3), (''A'', 4), (''A'', 5),
      (''B'', 1), (''B'', 2), (''B'', 4), (''B'', 5),
      (''C'', 1), (''C'', 2), (''C'', 3), (''C'', 4), (''C'', 5),
      (''D'', 1), (''D'', 2), (''D'', 3), (''D'', 4), (''D'', 5)]"
  by (simp add: campaign_pairs_def TOPOLOGIES_def repetition_range_value
      submitted_entry_def submission_result_def optimized_def build_circuit_program
      env_submission_fails_twice_def opt_to_list_def)

text \<open>
  C8 (as amended). Provided building and optimizing the circuit raises for no pair, the
  submission phase of either script runs to its end whatever the sampler and the identifier
  call answer: every (label, repetition) pair is prepared, in table order; a pair whose
  submission raises leaves no job record, every other pair leaves exactly one, in order; and
  the ledger later receives rows only for the recorded jobs.
\<close>

theorem submission_failures_isolated:
  assumes "\<forall>p\<in>set campaign_pairs.
             \<not> isl (optimized env (fst p) (snd (snd p)) (build_circuit (fst (snd p))))"
    and "\<forall>p\<in>set campaign_pairs.
             \<not> isl (optimized env (fst p) (snd (snd p))
                      (classical_control_circuit (topology_map_of (fst (snd p)))))"
  shows "(\<exists>s cs. submission_phase env = Inr s
           \<and> attempts (sub_log s) = map (\<lambda>p. (fst p, snd (snd p))) campaign_pairs
           \<and> submitted_jobs s
               = concat (map (\<lambda>p. opt_to_list (submitted_entry env p)) campaign_pairs)
           \<and> main_control env file = Inr cs
           \<and> ledger cs = initial_ledger file
               @ concat (map (\<lambda>e. opt_to_list (entry_row (backend_name env) e))
                          (submitted_jobs s)))
       \<and> (\<exists>s cs. submission_phase_b3 env = Inr s
           \<and> attempts (sub_log s) = map (\<lambda>p. (fst p, snd (snd p))) campaign_pairs
           \<and> submitted_jobs s
               = concat (map (\<lambda>p. opt_to_list (submitted_entry_b3 env p)) campaign_pairs)
           \<and> main_b3 env file = Inr cs
           \<and> ledger cs = initial_ledger file
               @ concat (map (\<lambda>e. rows_written_b3 (backend_name env) e)
                          (submitted_jobs s)))"
proof -
  from submission_phase_ok[OF assms(1)] obtain s where
    s: "submission_phase env = Inr s"
    "attempts (sub_log s) = map (\<lambda>p. (fst p, snd (snd p))) campaign_pairs"
    "submitted_jobs s = concat (map (\<lambda>p. opt_to_list (submitted_entry env p)) campaign_pairs)"
    by blast
  from submission_phase_b3_ok[OF assms(2)] obtain s3 where
    s3: "submission_phase_b3 env = Inr s3"
    "attempts (sub_log s3) = map (\<lambda>p. (fst p, snd (snd p))) campaign_pairs"
    "submitted_jobs s3
       = concat (map (\<lambda>p. opt_to_list (submitted_entry_b3 env p)) campaign_pairs)"
    by blast
  have m: "main_control env file
      = Inr (collection_phase (backend_name env) (submitted_jobs s)
               \<lparr>ledger = initial_ledger file, col_log = []\<rparr>)"
    by (simp add: main_control_def s(1))
  have m3: "main_b3 env file
      = Inr (collection_phase_b3 (backend_name env) (submitted_jobs s3)
               \<lparr>ledger = initial_ledger file, col_log = []\<rparr>)"
    by (simp add: main_b3_def s3(1))
  have l: "ledger (collection_phase (backend_name env) (submitted_jobs s)
               \<lparr>ledger = initial_ledger file, col_log = []\<rparr>)
      = initial_ledger file
        @ concat (map (\<lambda>e. opt_to_list (entry_row (backend_name env) e)) (submitted_jobs s))"
    using collection_phase_effect[of "backend_name env" "submitted_jobs s"
        "\<lparr>ledger = initial_ledger file, col_log = []\<rparr>"] by simp
  have l3: "ledger (collection_phase_b3 (backend_name env) (submitted_jobs s3)
               \<lparr>ledger = initial_ledger file, col_log = []\<rparr>)
      = initial_ledger file
        @ concat (map (\<lambda>e. rows_written_b3 (backend_name env) e)
                    (submitted_jobs s3))"
    using collection_phase_b3_effect[of "backend_name env" "submitted_jobs s3"
        "\<lparr>ledger = initial_ledger file, col_log = []\<rparr>"] by simp
  from s m l s3 m3 l3 show ?thesis by blast
qed

lemma campaign_pair_registered:
  "p \<in> set campaign_pairs \<Longrightarrow> (fst p, fst (snd p)) \<in> set TOPOLOGIES"
  by (auto simp: campaign_pairs_def)

lemma registered_builds:
  assumes "(label, cfg) \<in> set TOPOLOGIES"
  shows "\<exists>qc. build_circuit cfg = Inr qc"
    and "\<exists>qc. classical_control_circuit (topology_map_of cfg) = Inr qc"
proof -
  note rg = registered_within[OF assms]
  show "\<exists>qc. build_circuit cfg = Inr qc"
    using build_circuit_program[OF rg] by blast
  have "\<forall>i\<in>set (data (topology_map_of cfg)). 0 \<le> i \<and> i < 6"
    using get_ordered_data_within[OF rg(1) registered_wf(3)[OF assms]]
    by (simp add: topology_map_of_def)
  from classical_control_circuit_program[OF this]
  show "\<exists>qc. classical_control_circuit (topology_map_of cfg) = Inr qc"
    by (simp add: topology_map_of_def ANC_GLOBAL_def ANC_LOCAL_def)
qed

theorem submission_failures_isolated_witness:
  "\<exists>s. submission_phase env_submission_fails_twice = Inr s
     \<and> attempts (sub_log s) =
         [(''A'', 1), (''A'', 2), (''A'', 3), (''A'', 4), (''A'', 5),
          (''B'', 1), (''B'', 2), (''B'', 3), (''B'', 4), (''B'', 5),
          (''C'', 1), (''C'', 2), (''C'', 3), (''C'', 4), (''C'', 5),
          (''D'', 1), (''D'', 2), (''D'', 3), (''D'', 4), (''D'', 5)]
     \<and> map (\<lambda>e. (run_label e, rep e)) (submitted_jobs s) =
         [(''A'', 1), (''A'', 3), (''A'', 4), (''A'', 5),
          (''B'', 1), (''B'', 2), (''B'', 4), (''B'', 5),
          (''C'', 1), (''C'', 2), (''C'', 3), (''C'', 4), (''C'', 5),
          (''D'', 1), (''D'', 2), (''D'', 3), (''D'', 4), (''D'', 5)]"
proof -
  have t: "optimized env_submission_fails_twice label i (Inr qc) = Inr qc" for label i qc
    by (simp add: optimized_def env_submission_fails_twice_def)
  have h1: "\<forall>p\<in>set campaign_pairs.
      \<not> isl (optimized env_submission_fails_twice (fst p) (snd (snd p))
               (build_circuit (fst (snd p))))"
  proof
    fix p
    assume "p \<in> set campaign_pairs"
    from registered_builds(1)[OF campaign_pair_registered[OF this]]
    obtain qc where "build_circuit (fst (snd p)) = Inr qc" by blast
    then show "\<not> isl (optimized env_submission_fails_twice (fst p) (snd (snd p))
               (build_circuit (fst (snd p))))"
      by (simp add: t)
  qed
  have h2: "\<forall>p\<in>set campaign_pairs.
      \<not> isl (optimized env_submission_fails_twice (fst p) (snd (snd p))
               (classical_control_circuit (topology_map_of (fst (snd p)))))"
  proof
    fix p
    assume "p \<in> set campaign_pairs"
    from registered_builds(2)[OF campaign_pair_registered[OF this]]
    obtain qc where "classical_control_circuit (topology_map_of (fst (snd p))) = Inr qc"
      by blast
    then show "\<not> isl (optimized env_submission_fails_twice (fst p) (snd (snd p))
               (classical_control_circuit (topology_map_of (fst (snd p)))))"
      by (simp add: t)
  qed
  from submission_failures_isolated[OF h1 h2]
  obtain s where s: "submission_phase env_submission_fails_twice = Inr s"
    "attempts (sub_log s) = map (\<lambda>p. (fst p, snd (snd p))) campaign_pairs"
    "submitted_jobs s
       = concat (map (\<lambda>p. opt_to_list (submitted_entry env_submission_fails_twice p)) campaign_pairs)"
    by blast
  show ?thesis
    by (rule exI[of _ s]) (simp add: s campaign_pairs_value fails_twice_jobs)
qed

text \<open>
  C8 (as stated) fails for a failure while optimizing: \<open>transpile\<close> is called before the
  \<^verbatim>\<open>try\<close>, so when it raises for pair (A, 1) the phase ends there with that exception, in
  both scripts, and no later pair is prepared.
\<close>

theorem optimizer_failure_aborts:
  "optimized env_optimizer_fails_once ''A'' 1 (build_circuit topology_A)
      = Inl (RuntimeError ''TranspilerError'')
   \<and> submission_phase env_optimizer_fails_once
      = Inl (RuntimeError ''TranspilerError'',
             \<lparr>submitted_jobs = [], sub_log = [Preparing ''A'' 1]\<rparr>)
   \<and> submission_phase_b3 env_optimizer_fails_once
      = Inl (RuntimeError ''TranspilerError'',
             \<lparr>submitted_jobs = [], sub_log = [Preparing ''A'' 1]\<rparr>)"
proof -
  have a: "(''A'', topology_A) \<in> set TOPOLOGIES"
    by (simp add: TOPOLOGIES_def topology_A_def)
  from registered_builds[OF a] obtain qc qc3 where
    b: "build_circuit topology_A = Inr qc"
      "classical_control_circuit (topology_map_of topology_A) = Inr qc3"
    by blast
  have tA: "topology_A = \<lparr>ghz_indices = [0, 1, 2, 3, 4, 5], local_a_indices = [0, 1, 2],
                 local_b_indices = [3, 4, 5]\<rparr>"
    by (simp add: topology_A_def)
  have o: "optimized env_optimizer_fails_once ''A'' 1 (build_circuit topology_A)
      = Inl (RuntimeError ''TranspilerError'')"
    by (simp add: b optimized_def env_optimizer_fails_once_def)
  have p: "submission_phase env_optimizer_fails_once
      = Inl (RuntimeError ''TranspilerError'',
             \<lparr>submitted_jobs = [], sub_log = [Preparing ''A'' 1]\<rparr>)"
    by (simp add: submission_phase_def TOPOLOGIES_def repetition_range_value submit_one_def
        env_optimizer_fails_once_def Let_def tA[symmetric] b)
  have p3: "submission_phase_b3 env_optimizer_fails_once
      = Inl (RuntimeError ''TranspilerError'',
             \<lparr>submitted_jobs = [], sub_log = [Preparing ''A'' 1]\<rparr>)"
    by (simp add: submission_phase_b3_def TOPOLOGIES_def repetition_range_value submit_one_def
        env_optimizer_fails_once_def Let_def tA[symmetric] b)
  from o p p3 show ?thesis by simp
qed

subsection \<open>Failures during collection\<close>

lemma entry_rows_example:
  "entry_row ''ibm_torino'' entry_wait_fails = None"
  "entry_row ''ibm_torino'' entry_extract_fails = None"
  "entry_row ''ibm_torino'' entry_short_string = None"
  "entry_row ''ibm_torino'' entry_ok =
     Some [Text ''ibm_torino'', Text ''A'', Text ''job-1'', Fixed2 100, Fixed2 50,
           Fixed2 100, Fixed2 50, Num 8192]"
     apply (simp add: entry_row_def entry_wait_fails_def)
    apply (simp add: entry_row_def entry_extract_fails_def)
   apply (simp add: entry_row_def entry_short_string_def analyze_results_def total_of_def
      topology_A_def analyze_step_def bits_of_def parity_check_def py_getitem_def tally0_def)
  apply (simp add: entry_row_def entry_ok_def scenario2_value ledger_row_def SHOTS_def)
  done

lemma entry_empty_row:
  "entry_row ''ibm_torino'' entry_empty =
     Some [Text ''ibm_torino'', Text ''A'', Text ''job-5'', Fixed2 0, Fixed2 0, Fixed2 0,
           Fixed2 0, Num 8192]"
  "rows_written_b3 ''ibm_torino'' entry_empty_b3 = []"
  by (simp_all add: entry_row_def entry_empty_def rows_written_b3_def collect_one_b3_def
      entry_empty_b3_def analyze_results_def analyze_results_b3_def total_of_def
      ledger_row_def SHOTS_def Let_def)

text \<open>
  What holds of both collection loops: every submitted job is waited for exactly once, in
  submission order, the loop always runs to its end, a job adds at most one row, and it adds
  none unless it was successfully analyzed. In the triple-ancilla script every successfully
  analyzed job adds its row.
\<close>

lemma collection_visits_in_order:
  "visits (col_log (collection_phase bname entries s))
       = visits (col_log s) @ map (\<lambda>e. (job_id e, run_label e)) entries
   \<and> visits (col_log (collection_phase_b3 bname entries_b3 s))
       = visits (col_log s) @ map (\<lambda>e. (job_id e, run_label e)) entries_b3"
  using collection_phase_effect[of bname entries s]
    collection_phase_b3_effect[of bname entries_b3 s]
  by simp

lemma control_row_iff_analyzed:
  "(entry_row bname entry \<noteq> None) = successfully_analyzed entry"
  by (simp add: entry_row_def successfully_analyzed_def split: sum.splits)

lemma rows_written_b3_at_most_one:
  "length (rows_written_b3 bname entry) \<le> 1
   \<and> (rows_written_b3 bname entry \<noteq> [] \<longrightarrow> successfully_analyzed_b3 entry)"
  by (auto simp: rows_written_b3_def collect_one_b3_def successfully_analyzed_b3_def Let_def
      split: sum.splits list.splits)

text \<open>
  C9. In the dual-ancilla script a successfully analyzed job can be left without a ledger
  row. For a job whose counts sum to zero the blocking wait and the extraction pass and the
  analyzer returns (three zeros) without raising; the assignment of that tuple to the two
  names \<open>G, LA\<close> then raises ValueError, the outer handler catches it, and the loop goes on
  without a row. The triple-ancilla script, whose analyzer returns five zeros for five names,
  appends a row of zeros for the same job.
\<close>

theorem zero_total_job_without_row:
  "successfully_analyzed_b3 entry_empty_b3
   \<and> collection_phase_b3 ''ibm_torino'' [entry_empty_b3] \<lparr>ledger = [], col_log = []\<rparr>
       = \<lparr>ledger = [], col_log = [Waiting ''job-2'' ''A'', Failed ''job-2'' ValueError]\<rparr>
   \<and> successfully_analyzed entry_empty
   \<and> collection_phase ''ibm_torino'' [entry_empty] \<lparr>ledger = [], col_log = []\<rparr>
       = \<lparr>ledger = [[Text ''ibm_torino'', Text ''A'', Text ''job-5'', Fixed2 0, Fixed2 0,
                     Fixed2 0, Fixed2 0, Num 8192]],
          col_log = [Waiting ''job-5'' ''A'', Done ''job-5'']\<rparr>"
  by (simp add: successfully_analyzed_b3_def successfully_analyzed_def collect_one_b3_def
      collect_one_def entry_empty_b3_def entry_empty_def analyze_results_def
      analyze_results_b3_def total_of_def ledger_row_def SHOTS_def Let_def)

end
